theory Spec2Isabelle
  imports Complex_Main "HOL-Library.AList"
begin

section \<open>JavaScript values and objects\<close>

text \<open>
  The values that occur in instance configurations. A JavaScript number is an IEEE double:
  \<open>Fin r\<close> is the double with the real value \<open>r\<close> (negative zero is identified with
  zero), \<open>NaN\<close> and the two infinities are kept apart, since comparisons and conversions
  treat them differently. Nested objects and arrays are opaque (\<open>Opaque\<close>): the program
  never looks inside a configuration value, it only tests \<open>typeof\<close>, \<open>=== undefined\<close> and
  \<open>=== "video"\<close>. A nested value is taken in the form in which JSON holds it.
\<close>

datatype jsnum = Fin real | NaN | Inf bool

datatype jsval = Undefined | Null | Bool bool | Num jsnum | Str string | Opaque nat

text \<open>
  A plain object is an association list from property names to values, in the order of
  \<open>Object.keys\<close>. Reading a property that is absent yields \<open>undefined\<close>; assigning keeps the
  position of an existing property and appends a new one; \<open>delete\<close> removes the property.
\<close>

type_synonym object = "(string \<times> jsval) list"

definition get_prop :: "object \<Rightarrow> string \<Rightarrow> jsval" where
  "get_prop obj k = (case map_of obj k of None \<Rightarrow> Undefined | Some v \<Rightarrow> v)"

definition set_prop :: "object \<Rightarrow> string \<Rightarrow> jsval \<Rightarrow> object" where
  "set_prop obj k v = AList.update k v obj"

definition delete_prop :: "object \<Rightarrow> string \<Rightarrow> object" where
  "delete_prop obj k = AList.delete k obj"

definition keys :: "object \<Rightarrow> string list" where
  "keys obj = map fst obj"

text \<open>
  The variable \<open>browsers\<close> of \<open>loadConfigs\<close>, \<open>saveConfigs\<close>, \<open>exportConfig\<close> and
  \<open>importConfig\<close> holds what \<open>JSON.parse\<close> or the YAML parser has returned. The functions
  iterate over it with \<open>for \<dots> of\<close>, so it is an array or a string (\<open>Chars\<close>). An item of
  the array is a record, \<open>null\<close>, or a boolean, a number or a string. Items that are
  themselves arrays, and what the YAML parser makes of timestamps and binary data, are
  outside the model.
\<close>

datatype prim = PBool bool | PNum jsnum | PStr string

datatype item = Rec object | NullItem | Prim prim

datatype configs = Items "item list" | Chars string

section \<open>Events observed from outside\<close>

text \<open>
  Messages sent to the control window (\<open>control.webContents.send\<close>), syslog datagrams
  (\<open>syslog.info\<close>, \<open>syslog.warn\<close>, \<open>syslog.error\<close>), calls on the external capture worker,
  calls of \<open>fs.promises.writeFile\<close>, and the clearing of the two timers are recorded, in the
  order in which the program performs them, in a trace. The text of a syslog message is
  kept structured: \<open>HighCPU n\<close> stands for \<open>high CPU usage: n%\<close>, \<open>Started t id\<close> for
  \<open>started: "t" (id=id)\<close>, and so on.
\<close>

datatype severity = Info | Notice | Warn | Error

datatype syslog_msg =
    HighCPU int
  | Added jsval string
  | Modified jsval string
  | Deleted jsval string
  | Started jsval string
  | StartFailed jsval string
  | Reloaded jsval string
  | Stopped jsval string
  | AutoRestarted jsval string

datatype worker_call = WStart | WStop | WReload | WClear

datatype event =
    Send string
  | SendId string string
  | SendUsage real
  | Syslog severity string syslog_msg
  | Worker string worker_call
  | WriteFile string string
  | ScheduleAutosave
  | ClearTimer string
  | ServerClose string
  | UpdateBounds
  | Destroy

text \<open>
  The state of the usage timer's callback: the closure variable \<open>cpuHighCount\<close> and what
  the callback has emitted so far.
\<close>

record telemetry =
  cpuHighCount :: nat
  emitted :: "event list"

section \<open>Program state\<close>

text \<open>
  Modelled from the spec: the class \<open>Browser\<close> of \<open>vingester-browser.js\<close>, the handle of
  the capture worker, whose source is missing. An instance holds its configuration and the
  status that the query \<open>running()\<close> reports; the status is derived from the worker, which
  the registry entry owns exclusively.
\<close>

record browser =
  cfg :: object
  running :: bool

text \<open>
  The closure variables of the main process that the operations below read and write:
  the registry \<open>browsers\<close> (a plain object used as a map from ids to instances, in the
  order of \<open>Object.keys\<close>), the entry \<open>"browsers"\<close> of the persistent store,
  \<open>configVersion\<close>, the two timers (\<open>True\<close> while not \<open>null\<close>), the autosave file (the empty
  string is falsy), the file given by \<open>--config\<close>, whether the two HTTP servers listen
  (\<open>server\<close> not \<open>null\<close>), whether the control window has been destroyed, how many ids
  \<open>new UUID(1)\<close> has handed out, and the trace of effects performed so far.

  The entry of the store is a JSON text. \<open>Some d\<close> stands for the text
  \<open>JSON.stringify(d)\<close>, \<open>None\<close> for an entry that is \<open>undefined\<close>; reading the entry back
  with \<open>JSON.parse\<close> is the function \<open>JSON_parse\<close> below.
\<close>

record world =
  browsers :: "(string \<times> browser) list"
  store :: "configs option"
  configVersion :: nat
  timer :: bool
  autosaveTimer :: bool
  autosaveFile :: string
  configFile :: "string option"
  api_server :: bool
  webui_server :: bool
  control_destroyed :: bool
  uuid_count :: nat
  trace :: "event list"

text \<open>
  What \<open>jsYAML.load\<close> does with a text: it throws, or it returns the document, which is
  \<open>undefined\<close> (a text without document), \<open>null\<close>, a scalar, a mapping or a sequence.
\<close>

datatype yaml =
    YamlException
  | YamlUndefined
  | YamlNull
  | YamlBool bool
  | YamlNum jsnum
  | YamlStr string
  | YamlMap object
  | YamlSeq "item list"

text \<open>
  What the environment decides: whether the worker's \<open>start()\<close> of an instance reports
  success; when the promise of a call on the worker settles (the calls that a bulk action
  has pending are completed in the order of these times, calls with the same time in the
  order in which they were made); the ids that \<open>new UUID(1)\<close> yields; the YAML library;
  what the language's \<open>Number\<close> makes of a string and of a nested value, and \<open>String\<close> of a
  finite number and of a nested value; the headers of the written files (they hold the
  product version, the clock's reading and stored settings); and whether a call of
  \<open>fs.promises.writeFile\<close> with a file and a text succeeds.
\<close>

record env =
  worker_start :: "string \<Rightarrow> bool"
  worker_time :: "worker_call \<Rightarrow> string \<Rightarrow> nat"
  new_UUID :: "nat \<Rightarrow> string"
  jsYAML_load :: "string \<Rightarrow> yaml"
  jsYAML_dump :: "jsval \<Rightarrow> string"
  StringToNumber :: "string \<Rightarrow> jsnum"
  NumberToString :: "real \<Rightarrow> string"
  Opaque_toNumber :: "nat \<Rightarrow> jsnum"
  Opaque_toString :: "nat \<Rightarrow> string"
  export_header :: string
  autosave_header :: string
  fs_writeFile :: "string \<Rightarrow> string \<Rightarrow> bool"

definition emit :: "event \<Rightarrow> world \<Rightarrow> world" where
  "emit e w = w\<lparr>trace := trace w @ [e]\<rparr>"

text \<open>
  \<open>Number(v)\<close> and \<open>String(v)\<close>, as the language defines them on the primitive values.
\<close>

fun js_Number :: "env \<Rightarrow> jsval \<Rightarrow> jsnum" where
  "js_Number env Undefined = NaN"
| "js_Number env Null = Fin 0"
| "js_Number env (Bool b) = Fin (if b then 1 else 0)"
| "js_Number env (Num n) = n"
| "js_Number env (Str s) = StringToNumber env s"
| "js_Number env (Opaque k) = Opaque_toNumber env k"

fun js_String :: "env \<Rightarrow> jsval \<Rightarrow> string" where
  "js_String env Undefined = ''undefined''"
| "js_String env Null = ''null''"
| "js_String env (Bool b) = (if b then ''true'' else ''false'')"
| "js_String env (Num (Fin r)) = NumberToString env r"
| "js_String env (Num NaN) = ''NaN''"
| "js_String env (Num (Inf s)) = (if s then ''Infinity'' else ''-Infinity'')"
| "js_String env (Str s) = s"
| "js_String env (Opaque k) = Opaque_toString env k"

text \<open>
  \<open>JSON.parse(JSON.stringify(d))\<close>: a property whose value is \<open>undefined\<close> is left out, and
  a number that is not finite becomes \<open>null\<close>, also as an item of the array.
\<close>

fun JSON_value :: "jsval \<Rightarrow> jsval" where
  "JSON_value (Num NaN) = Null"
| "JSON_value (Num (Inf s)) = Null"
| "JSON_value v = v"

definition JSON_object :: "object \<Rightarrow> object" where
  "JSON_object obj = map (\<lambda>(k, v). (k, JSON_value v)) (filter (\<lambda>(k, v). v \<noteq> Undefined) obj)"

fun JSON_item :: "item \<Rightarrow> item" where
  "JSON_item (Rec obj) = Rec (JSON_object obj)"
| "JSON_item NullItem = NullItem"
| "JSON_item (Prim (PNum NaN)) = NullItem"
| "JSON_item (Prim (PNum (Inf s))) = NullItem"
| "JSON_item (Prim p) = Prim p"

fun JSON_parse :: "configs \<Rightarrow> configs" where
  "JSON_parse (Items xs) = Items (map JSON_item xs)"
| "JSON_parse (Chars s) = Chars s"

section \<open>Config schema and sanitizer\<close>

text \<open>
  The table \<open>fields\<close> of the source, column by column: internal name, internal type,
  default, exported type, external name.
\<close>

datatype jstype = TString | TNumber | TBoolean

datatype field =
  Field (iname: string) (itype: jstype) (def: jsval) (etype: jstype) (ename: string)

definition fields :: "field list" where
  "fields = [
     Field ''t'' TString (Str '''') TString ''BrowserTitle'',
     Field ''i'' TString (Str '''') TString ''BrowserInfo'',
     Field ''w'' TString (Str ''1280'') TNumber ''BrowserWidth'',
     Field ''h'' TString (Str ''720'') TNumber ''BrowserHeight'',
     Field ''c'' TString (Str ''transparent'') TString ''BrowserColor'',
     Field ''z'' TString (Str ''1.0'') TNumber ''BrowserZoom'',
     Field ''H'' TBoolean (Bool False) TBoolean ''BrowserTrust'',
     Field ''I'' TBoolean (Bool False) TBoolean ''BrowserNodeAPI'',
     Field ''B'' TBoolean (Bool False) TBoolean ''BrowserOBSDOM'',
     Field ''S'' TBoolean (Bool False) TBoolean ''BrowserPersist'',
     Field ''ar'' TBoolean (Bool False) TBoolean ''AutoRefreshEnabled'',
     Field ''ai'' TString (Str ''300'') TNumber ''AutoRefreshInterval'',
     Field ''as'' TBoolean (Bool False) TBoolean ''InstanceAutoStart'',
     Field ''it'' TString (Str ''url'') TString ''InputType'',
     Field ''u'' TString (Str '''') TString ''InputURL'',
     Field ''if'' TString (Str '''') TString ''InputFiles'',
     Field ''si'' TString (Str ''5'') TNumber ''SlideshowInterval'',
     Field ''sf'' TString (Str ''1'') TNumber ''SlideshowFade'',
     Field ''k'' TString (Str ''0'') TNumber ''PatchDelay'',
     Field ''j'' TString (Str '''') TString ''PatchFrame'',
     Field ''g'' TString (Str ''inline'') TString ''PatchStyleType'',
     Field ''q'' TString (Str '''') TString ''PatchStyleCode'',
     Field ''G'' TString (Str ''inline'') TString ''PatchScriptType'',
     Field ''Q'' TString (Str '''') TString ''PatchScriptCode'',
     Field ''N'' TBoolean (Bool False) TBoolean ''Output2Enabled'',
     Field ''f'' TString (Str ''30'') TNumber ''Output2VideoFrameRate'',
     Field ''a'' TBoolean (Bool False) TBoolean ''Output2VideoAdaptive'',
     Field ''O'' TString (Str ''0'') TNumber ''Output2VideoDelay'',
     Field ''r'' TNumber (Num (Fin 48000)) TNumber ''Output2AudioSampleRate'',
     Field ''C'' TString (Str ''2'') TNumber ''Output2AudioChannels'',
     Field ''o'' TString (Str ''0'') TNumber ''Output2AudioDelay'',
     Field ''n'' TBoolean (Bool True) TBoolean ''Output2SinkNDIEnabled'',
     Field ''v'' TBoolean (Bool True) TBoolean ''Output2SinkNDIAlpha'',
     Field ''l'' TBoolean (Bool False) TBoolean ''Output2SinkNDITallyReload'',
     Field ''m'' TBoolean (Bool False) TBoolean ''Output2SinkFFmpegEnabled'',
     Field ''R'' TString (Str ''vbr'') TString ''Output2SinkFFmpegMode'',
     Field ''F'' TString (Str ''matroska'') TString ''Output2SinkFFmpegFormat'',
     Field ''M'' TString (Str '''') TString ''Output2SinkFFmpegOptions'',
     Field ''P'' TBoolean (Bool False) TBoolean ''PreviewEnabled'',
     Field ''T'' TBoolean (Bool False) TBoolean ''ConsoleEnabled'',
     Field ''E'' TBoolean (Bool False) TBoolean ''DevToolsEnabled'',
     Field ''_'' TBoolean (Bool False) TBoolean ''Collapsed'']"

text \<open>
  \<open>sanitizeConfig\<close> mutates the record and returns the number of changes; the model
  returns both. The three phases are the three statements of the source: the migration of
  the removed input type \<open>"video"\<close>, the loop over \<open>fields\<close> that fills in what is
  \<open>undefined\<close>, and the loop over \<open>Object.keys(browser)\<close> (taken once, before the loop runs)
  that deletes what the table does not know, \<open>id\<close> excepted.
\<close>

definition migrate_video :: "object \<Rightarrow> object \<times> nat" where
  "migrate_video browser =
     (if get_prop browser ''it'' = Str ''video''
      then (set_prop browser ''it'' (Str ''url''), 1)
      else (browser, 0))"

fun fill_defaults :: "field list \<Rightarrow> object \<Rightarrow> nat \<Rightarrow> object \<times> nat" where
  "fill_defaults [] browser changed = (browser, changed)"
| "fill_defaults (f # fs) browser changed =
     (if get_prop browser (iname f) = Undefined
      then fill_defaults fs (set_prop browser (iname f) (def f)) (changed + 1)
      else fill_defaults fs browser changed)"

fun prune_attrs :: "string list \<Rightarrow> object \<Rightarrow> nat \<Rightarrow> object \<times> nat" where
  "prune_attrs [] browser changed = (browser, changed)"
| "prune_attrs (attr # attrs) browser changed =
     (if attr = ''id'' then prune_attrs attrs browser changed
      else if find (\<lambda>f. iname f = attr) fields = None
      then prune_attrs attrs (delete_prop browser attr) (changed + 1)
      else prune_attrs attrs browser changed)"

definition sanitizeConfig :: "object \<Rightarrow> object \<times> nat" where
  "sanitizeConfig browser =
     (case migrate_video browser of (b1, c1) \<Rightarrow>
      case fill_defaults fields b1 c1 of (b2, c2) \<Rightarrow>
      prune_attrs (keys b2) b2 c2)"

definition schema_keys :: "string set" where
  "schema_keys = set (map iname fields)"

text \<open>The keys that the pruning loop leaves alone.\<close>

definition kept :: "string \<Rightarrow> bool" where
  "kept k \<longleftrightarrow> k = ''id'' \<or> k \<in> schema_keys"

text \<open>A record with an id, the retired input type and a key the schema does not know.\<close>

definition cfg_example :: object where
  "cfg_example =
     [(''id'', Str ''A1B2''), (''t'', Str ''Cam1''), (''it'', Str ''video''), (''zz'', Num (Fin 7))]"

subsection \<open>Properties of objects\<close>

lemma get_prop_set_prop:
  "get_prop (set_prop b k v) k' = (if k' = k then v else get_prop b k')"
  by (simp add: get_prop_def set_prop_def update_conv')

lemma keys_set_prop: "set (keys (set_prop b k v)) = insert k (set (keys b))"
  using dom_update [of k v b] by (simp add: keys_def set_prop_def)

lemma get_prop_absent: "k \<notin> set (keys b) \<Longrightarrow> get_prop b k = Undefined"
  by (simp add: get_prop_def keys_def map_of_eq_None_iff [THEN iffD2])

lemma map_of_filter_key:
  "map_of (filter (\<lambda>(k, v). P k) b) k' = (if P k' then map_of b k' else None)"
  by (induction b) auto

lemma get_prop_filter:
  "get_prop (filter (\<lambda>(k, v). P k) b) k' = (if P k' then get_prop b k' else Undefined)"
  by (simp add: get_prop_def map_of_filter_key)

lemma keys_filter: "keys (filter (\<lambda>(k, v). P k) b) = filter P (keys b)"
  by (induction b) (auto simp: keys_def)

lemma delete_prop_filter: "delete_prop b k = filter (\<lambda>(k', v). k' \<noteq> k) b"
  by (auto simp: delete_prop_def AList.delete_eq intro: filter_cong)

lemma find_distinct:
  "distinct (map g xs) \<Longrightarrow> x \<in> set xs \<Longrightarrow> find (\<lambda>y. g y = g x) xs = Some x"
  by (induction xs) (auto simp: rev_image_eqI)

lemma fill_defaults_keys:
  "set (keys (fst (fill_defaults fs b c))) = set (keys b) \<union> iname ` set fs"
proof (induction fs arbitrary: b c)
  case Nil
  then show ?case by simp
next
  case (Cons f fs)
  show ?case
  proof (cases "get_prop b (iname f) = Undefined")
    case True
    then show ?thesis by (simp add: Cons.IH keys_set_prop)
  next
    case False
    then have "iname f \<in> set (keys b)" using get_prop_absent by blast
    with False show ?thesis by (auto simp: Cons.IH)
  qed
qed

lemma fill_defaults_get:
  assumes "\<forall>f \<in> set fs. def f \<noteq> Undefined"
  shows "get_prop (fst (fill_defaults fs b c)) k =
           (if get_prop b k \<noteq> Undefined then get_prop b k
            else case find (\<lambda>f. iname f = k) fs of None \<Rightarrow> Undefined | Some f \<Rightarrow> def f)"
  using assms
  by (induction fs arbitrary: b c) (auto simp: get_prop_set_prop)

lemma fill_defaults_noop:
  "\<forall>f \<in> set fs. get_prop b (iname f) \<noteq> Undefined \<Longrightarrow> fill_defaults fs b c = (b, c)"
  by (induction fs arbitrary: b c) auto

lemma find_fields_None: "find (\<lambda>f. iname f = attr) fields = None \<longleftrightarrow> attr \<notin> schema_keys"
  by (auto simp: find_None_iff schema_keys_def)

lemma prune_attrs_filter:
  "fst (prune_attrs attrs b c) = filter (\<lambda>(k, v). kept k \<or> k \<notin> set attrs) b"
proof (induction attrs arbitrary: b c)
  case Nil
  then show ?case by simp
next
  case (Cons attr attrs)
  show ?case
  proof (cases "kept attr")
    case True
    then have "prune_attrs (attr # attrs) b c = prune_attrs attrs b c"
      by (auto simp: kept_def find_fields_None)
    moreover have "filter (\<lambda>(k, v). kept k \<or> k \<notin> set attrs) b =
                   filter (\<lambda>(k, v). kept k \<or> k \<notin> set (attr # attrs)) b"
      using True by (intro filter_cong) auto
    ultimately show ?thesis by (simp add: Cons.IH)
  next
    case False
    then have "prune_attrs (attr # attrs) b c = prune_attrs attrs (delete_prop b attr) (c + 1)"
      by (auto simp: kept_def find_fields_None)
    moreover have "filter (\<lambda>(k, v). kept k \<or> k \<notin> set attrs) (delete_prop b attr) =
                   filter (\<lambda>(k, v). kept k \<or> k \<notin> set (attr # attrs)) b"
      unfolding delete_prop_filter filter_filter using False by (intro filter_cong) auto
    ultimately show ?thesis by (simp add: Cons.IH)
  qed
qed

lemma prune_attrs_noop:
  "\<forall>a \<in> set attrs. kept a \<Longrightarrow> prune_attrs attrs b c = (b, c)"
  by (induction attrs arbitrary: b c) (auto simp: kept_def find_fields_None)

lemma fields_def_defined: "\<forall>f \<in> set fields. def f \<noteq> Undefined"
  by (simp add: fields_def)

lemma fields_distinct_iname: "distinct (map iname fields)"
  by (simp add: fields_def)


lemma migrate_video_get:
  "get_prop (fst (migrate_video c)) k =
     (if k = ''it'' \<and> get_prop c ''it'' = Str ''video'' then Str ''url'' else get_prop c k)"
  by (simp add: migrate_video_def get_prop_set_prop)

lemma migrate_video_keys: "set (keys (fst (migrate_video c))) = set (keys c)"
proof (cases "get_prop c ''it'' = Str ''video''")
  case True
  then have "''it'' \<in> set (keys c)" using get_prop_absent [of "''it''" c] by auto
  with True show ?thesis by (auto simp: migrate_video_def keys_set_prop)
next
  case False
  then show ?thesis by (simp add: migrate_video_def)
qed

lemma migrate_video_noop:
  "get_prop c ''it'' \<noteq> Str ''video'' \<Longrightarrow> migrate_video c = (c, 0)"
  by (simp add: migrate_video_def)

lemma sanitizeConfig_obj:
  "fst (sanitizeConfig c) =
     filter (\<lambda>(k, v). kept k)
       (fst (fill_defaults fields (fst (migrate_video c)) (snd (migrate_video c))))"
proof -
  obtain b1 c1 where m: "migrate_video c = (b1, c1)" by (cases "migrate_video c")
  obtain b2 c2 where f: "fill_defaults fields b1 c1 = (b2, c2)" by (cases "fill_defaults fields b1 c1")
  have "filter (\<lambda>(k, v). kept k \<or> k \<notin> set (keys b2)) b2 = filter (\<lambda>(k, v). kept k) b2"
    by (intro filter_cong) (auto simp: keys_def rev_image_eqI)
  then show ?thesis
    by (simp add: sanitizeConfig_def m f prune_attrs_filter)
qed

lemma sanitizeConfig_get:
  "get_prop (fst (sanitizeConfig c)) k =
     (if \<not> kept k then Undefined
      else if get_prop (fst (migrate_video c)) k \<noteq> Undefined then get_prop (fst (migrate_video c)) k
      else case find (\<lambda>f. iname f = k) fields of None \<Rightarrow> Undefined | Some f \<Rightarrow> def f)"
  by (simp add: sanitizeConfig_obj get_prop_filter fill_defaults_get [OF fields_def_defined])

lemma sanitizeConfig_keys:
  "set (keys (fst (sanitizeConfig c))) = {k \<in> set (keys c) \<union> schema_keys. kept k}"
  by (auto simp: sanitizeConfig_obj keys_filter fill_defaults_keys migrate_video_keys schema_keys_def)

lemma id_not_schema: "''id'' \<notin> schema_keys"
  by (simp add: schema_keys_def fields_def)

lemma it_schema: "''it'' \<in> schema_keys"
  by (simp add: schema_keys_def fields_def)

lemma sanitizeConfig_field_defined:
  assumes "f \<in> set fields"
  shows "get_prop (fst (sanitizeConfig c)) (iname f) \<noteq> Undefined"
proof -
  have k: "kept (iname f)" using assms by (simp add: kept_def schema_keys_def)
  obtain g where g: "find (\<lambda>f'. iname f' = iname f) fields = Some g"
    using assms find_fields_None [of "iname f"] by (auto simp: schema_keys_def)
  then have "g \<in> set fields" by (auto simp: find_Some_iff)
  then have "def g \<noteq> Undefined" using fields_def_defined by blast
  with k g show ?thesis by (simp add: sanitizeConfig_get)
qed

lemma sanitizeConfig_it: "get_prop (fst (sanitizeConfig c)) ''it'' \<noteq> Str ''video''"
proof -
  have "find (\<lambda>f. iname f = ''it'') fields = Some (Field ''it'' TString (Str ''url'') TString ''InputType'')"
    by (simp add: fields_def)
  then show ?thesis
    using it_schema by (simp add: sanitizeConfig_get kept_def migrate_video_get)
qed

lemma sanitizeConfig_fixpoint:
  "sanitizeConfig (fst (sanitizeConfig c)) = (fst (sanitizeConfig c), 0)"
proof -
  let ?b = "fst (sanitizeConfig c)"
  have m: "migrate_video ?b = (?b, 0)"
    by (rule migrate_video_noop) (rule sanitizeConfig_it)
  have f: "fill_defaults fields ?b 0 = (?b, 0)"
    by (rule fill_defaults_noop) (simp add: sanitizeConfig_field_defined)
  have p: "prune_attrs (keys ?b) ?b 0 = (?b, 0)"
    by (rule prune_attrs_noop) (simp add: sanitizeConfig_keys)
  show ?thesis
    unfolding sanitizeConfig_def [of ?b] by (simp add: m f p)
qed

text \<open>
  Claim C1. For every config record, sanitizing the sanitized record changes nothing and
  counts zero changes; the keys of the sanitized record, \<open>id\<close> set aside, are exactly the
  internal names of the schema; \<open>id\<close> is kept when the input had it and never invented;
  and every schema field that was missing (\<open>undefined\<close>) in the input holds its default.
\<close>

theorem sanitizeConfig_idempotent_schema:
  "sanitizeConfig (fst (sanitizeConfig c)) = (fst (sanitizeConfig c), 0) \<and>
   set (keys (fst (sanitizeConfig c))) - {''id''} = schema_keys \<and>
   (''id'' \<in> set (keys (fst (sanitizeConfig c))) \<longleftrightarrow> ''id'' \<in> set (keys c)) \<and>
   (\<forall>f \<in> set fields. get_prop c (iname f) = Undefined \<longrightarrow>
      get_prop (fst (sanitizeConfig c)) (iname f) = def f)"
proof -
  have keys: "set (keys (fst (sanitizeConfig c))) - {''id''} = schema_keys"
    using id_not_schema by (auto simp: sanitizeConfig_keys kept_def)
  have idk: "''id'' \<in> set (keys (fst (sanitizeConfig c))) \<longleftrightarrow> ''id'' \<in> set (keys c)"
    using id_not_schema by (auto simp: sanitizeConfig_keys kept_def)
  have dflt: "get_prop (fst (sanitizeConfig c)) (iname f) = def f"
    if "f \<in> set fields" and "get_prop c (iname f) = Undefined" for f
  proof -
    have "find (\<lambda>f'. iname f' = iname f) fields = Some f"
      using that(1) by (rule find_distinct [OF fields_distinct_iname])
    moreover have "kept (iname f)" using that(1) by (simp add: kept_def schema_keys_def)
    moreover have "get_prop (fst (migrate_video c)) (iname f) = Undefined"
      using that(2) by (auto simp: migrate_video_get)
    ultimately show ?thesis by (simp add: sanitizeConfig_get)
  qed
  from sanitizeConfig_fixpoint keys idk dflt show ?thesis by blast
qed

theorem sanitizeConfig_idempotent_schema_witness:
  "snd (sanitizeConfig (fst (sanitizeConfig cfg_example))) = 0 \<and>
   set (keys (fst (sanitizeConfig cfg_example))) - {''id''} = schema_keys \<and>
   ''id'' \<in> set (keys (fst (sanitizeConfig cfg_example))) \<and>
   get_prop cfg_example ''w'' = Undefined \<and>
   get_prop (fst (sanitizeConfig cfg_example)) ''w'' = Str ''1280''"
proof -
  have w: "Field ''w'' TString (Str ''1280'') TNumber ''BrowserWidth'' \<in> set fields"
    by (simp add: fields_def)
  have u: "get_prop cfg_example ''w'' = Undefined" and i: "''id'' \<in> set (keys cfg_example)"
    by (simp_all add: cfg_example_def get_prop_def keys_def)
  from sanitizeConfig_idempotent_schema [of cfg_example] w u i show ?thesis
    by fastforce
qed

section \<open>Instance registry and state machine\<close>

text \<open>
  The errors that \<open>controlBrowser\<close> throws, named after the taxonomy of the specification:
  \<open>UnknownInstance\<close> is \<open>Error("invalid browser id")\<close>, \<open>AlreadyRunning\<close> is
  \<open>Error("browser already running")\<close>, \<open>InvalidConfig\<close> is
  \<open>Error("browser configuration not valid")\<close>, \<open>NotRunning\<close> is
  \<open>Error("browser still not running")\<close>, \<open>StillRunning\<close> is \<open>Error("browser still running")\<close>.
  \<open>TypeError\<close> is what the language raises when a method is called on \<open>undefined\<close> or on a
  value that has no such method, and when \<open>for \<dots> of\<close> meets a value that cannot be
  iterated. \<open>IOError\<close> is the rejection of \<open>fs.promises.writeFile\<close>.
\<close>

datatype error =
  UnknownInstance | AlreadyRunning | InvalidConfig | NotRunning | StillRunning | TypeError
  | IOError

text \<open>
  The registry is the object literal \<open>{}\<close>, so \<open>browsers[id]\<close> also finds what every object
  inherits from \<open>Object.prototype\<close>: for these names the lookup is not \<open>undefined\<close> although
  the registry has no such entry, and the value found is no instance. Assigning to
  \<open>__proto__\<close> creates no entry (what a replaced prototype would then make visible is not
  modelled).
\<close>

definition Object_prototype_names :: "string list" where
  "Object_prototype_names =
     [''constructor'', ''__defineGetter__'', ''__defineSetter__'', ''hasOwnProperty'',
      ''__lookupGetter__'', ''__lookupSetter__'', ''isPrototypeOf'', ''propertyIsEnumerable'',
      ''toString'', ''valueOf'', ''__proto__'', ''toLocaleString'']"

datatype entry = Own browser | Inherited | Absent

definition lookup :: "world \<Rightarrow> string \<Rightarrow> entry" where
  "lookup w bid =
     (case map_of (browsers w) bid of
        Some b \<Rightarrow> Own b
      | None \<Rightarrow> if bid \<in> set Object_prototype_names then Inherited else Absent)"

text \<open>
  \<open>Object.keys\<close> lists first the names that are array indices (a decimal numeral in
  canonical form, below \<open>2^32 - 1\<close>) in ascending order, and then the other names in the
  order of their creation. An id made by \<open>new UUID(1).fold(2)\<close> is eight hexadecimal digits
  and may be such an index. Assigning to an existing entry keeps its place.
\<close>

definition array_index :: "string \<Rightarrow> nat option" where
  "array_index s =
     (let n = foldl (\<lambda>n c. 10 * n + (of_char c - 48)) (0::nat) s in
      if s \<noteq> [] \<and> (\<forall>c \<in> set s. c \<in> set ''0123456789'') \<and>
         (s = ''0'' \<or> hd s \<noteq> CHR ''0'') \<and> n < 4294967295
      then Some n else None)"

fun insert_entry :: "string \<Rightarrow> browser \<Rightarrow> (string \<times> browser) list \<Rightarrow> (string \<times> browser) list" where
  "insert_entry bid b [] = [(bid, b)]"
| "insert_entry bid b ((k, x) # rest) =
     (case array_index bid of
        None \<Rightarrow> (k, x) # insert_entry bid b rest
      | Some n \<Rightarrow>
          (case array_index k of
             None \<Rightarrow> (bid, b) # (k, x) # rest
           | Some m \<Rightarrow>
               if n < m then (bid, b) # (k, x) # rest else (k, x) # insert_entry bid b rest))"

definition assign :: "string \<Rightarrow> browser \<Rightarrow> world \<Rightarrow> world" where
  "assign bid b w =
     (if bid = ''__proto__'' then w
      else if map_of (browsers w) bid \<noteq> None
      then w\<lparr>browsers := AList.update bid b (browsers w)\<rparr>
      else w\<lparr>browsers := insert_entry bid b (browsers w)\<rparr>)"

text \<open>
  A method that changes an instance changes the object the registry refers to: the entry
  keeps its place.
\<close>

definition mutate :: "string \<Rightarrow> browser \<Rightarrow> world \<Rightarrow> world" where
  "mutate bid b w = w\<lparr>browsers := AList.update bid b (browsers w)\<rparr>"

definition remove :: "string \<Rightarrow> world \<Rightarrow> world" where
  "remove bid w = w\<lparr>browsers := AList.delete bid (browsers w)\<rparr>"

text \<open>The conversion to a boolean that \<open>if\<close>, \<open>!\<close>, \<open>&&\<close> and \<open>||\<close> apply.\<close>

fun truthy :: "jsval \<Rightarrow> bool" where
  "truthy Undefined = False"
| "truthy Null = False"
| "truthy (Bool b) = b"
| "truthy (Num (Fin r)) = (r \<noteq> 0)"
| "truthy (Num NaN) = False"
| "truthy (Num (Inf s)) = True"
| "truthy (Str s) = (s \<noteq> [])"
| "truthy (Opaque n) = True"

text \<open>
  Modelled from the spec: \<open>valid()\<close> of the class \<open>Browser\<close>, whose source is missing.
  Validity is a pure predicate over the current configuration: the title (\<open>t\<close>) is not
  empty and the output (\<open>N\<close>) is enabled.
\<close>

definition valid :: "browser \<Rightarrow> bool" where
  "valid b \<longleftrightarrow> get_prop (cfg b) ''t'' \<noteq> Str [] \<and> truthy (get_prop (cfg b) ''N'')"

text \<open>
  Modelled from the spec: the constructor and \<open>reconfigure\<close> of the class \<open>Browser\<close>, whose
  source is missing. A new instance is stopped; \<open>reconfigure\<close> replaces the configuration
  and keeps the worker.
\<close>

definition new_Browser :: "object \<Rightarrow> browser" where
  "new_Browser c = \<lparr>cfg = c, running = False\<rparr>"

definition reconfigure :: "object \<Rightarrow> browser \<Rightarrow> browser" where
  "reconfigure c b = b\<lparr>cfg := c\<rparr>"

text \<open>The title as the syslog lines print it.\<close>

definition title :: "browser \<Rightarrow> jsval" where
  "title b = get_prop (cfg b) ''t''"

subsection \<open>The single-instance actions\<close>

text \<open>
  Each action returns the error it throws, if any, and the state in which it ends. The
  calls on the worker are awaited one after the other: the model runs an action to its end
  before the next begins. Modelled from the spec: a successful \<open>start()\<close> leaves the instance
  running; \<open>stop()\<close> leaves it stopped.
\<close>

definition control_start :: "env \<Rightarrow> string \<Rightarrow> world \<Rightarrow> error option \<times> world" where
  "control_start env bid w =
     (case lookup w bid of
        Absent \<Rightarrow> (Some UnknownInstance, w)
      | Inherited \<Rightarrow> (Some TypeError, w)
      | Own b \<Rightarrow>
          if running b then (Some AlreadyRunning, w)
          else if \<not> valid b then (Some InvalidConfig, w)
          else
            let w1 = emit (Worker bid WStart) (emit (SendId ''browser-start'' bid) w) in
            if worker_start env bid then
              (None, emit (Syslog Info ''instance'' (Started (title b) bid))
                       (emit (SendId ''browser-started'' bid)
                          (mutate bid (b\<lparr>running := True\<rparr>) w1)))
            else
              (None, mutate bid (b\<lparr>running := False\<rparr>)
                       (emit (Worker bid WStop)
                          (emit (Syslog Error ''instance'' (StartFailed (title b) bid))
                             (emit (SendId ''browser-failed'' bid) w1)))))"

definition control_reload :: "string \<Rightarrow> world \<Rightarrow> error option \<times> world" where
  "control_reload bid w =
     (case lookup w bid of
        Absent \<Rightarrow> (Some UnknownInstance, w)
      | Inherited \<Rightarrow> (Some TypeError, w)
      | Own b \<Rightarrow>
          if \<not> running b then (Some NotRunning, w)
          else
            (None, emit (Syslog Info ''instance'' (Reloaded (title b) bid))
                     (emit (SendId ''browser-reloaded'' bid)
                        (emit (Worker bid WReload)
                           (emit (SendId ''browser-reload'' bid) w)))))"

definition control_stop :: "string \<Rightarrow> world \<Rightarrow> error option \<times> world" where
  "control_stop bid w =
     (case lookup w bid of
        Absent \<Rightarrow> (Some UnknownInstance, w)
      | Inherited \<Rightarrow> (Some TypeError, w)
      | Own b \<Rightarrow>
          if \<not> running b then (Some NotRunning, w)
          else
            (None, emit (Syslog Info ''instance'' (Stopped (title b) bid))
                     (emit (SendId ''browser-stopped'' bid)
                        (mutate bid (b\<lparr>running := False\<rparr>)
                           (emit (Worker bid WStop)
                              (emit (SendId ''browser-stop'' bid) w))))))"

definition control_clear :: "string \<Rightarrow> world \<Rightarrow> error option \<times> world" where
  "control_clear bid w =
     (case lookup w bid of
        Absent \<Rightarrow> (Some UnknownInstance, w)
      | Inherited \<Rightarrow> (Some TypeError, w)
      | Own b \<Rightarrow>
          if running b then (Some StillRunning, w)
          else
            (None, emit (SendId ''browser-cleared'' bid)
                     (emit (Worker bid WClear)
                        (emit (SendId ''browser-clear'' bid) w))))"

definition control_add :: "string \<Rightarrow> object \<Rightarrow> world \<Rightarrow> error option \<times> world" where
  "control_add bid c w =
     (None, emit (Syslog Info ''instance'' (Added (get_prop c ''t'') bid))
              (assign bid (new_Browser c) w))"

definition control_mod :: "string \<Rightarrow> object \<Rightarrow> world \<Rightarrow> error option \<times> world" where
  "control_mod bid c w =
     (case lookup w bid of
        Absent \<Rightarrow> (Some TypeError, w)
      | Inherited \<Rightarrow> (Some TypeError, w)
      | Own b \<Rightarrow>
          (None, emit (Syslog Info ''instance'' (Modified (get_prop c ''t'') bid))
                   (mutate bid (reconfigure c b) w)))"

text \<open>
  \<open>del\<close>: the title is \<open>browsers[id]?.cfg?.t || id\<close>, read before anything else; a running
  instance is stopped through the \<open>stop\<close> action; then the entry is deleted and the syslog
  line is sent. For an id without entry the guard \<open>browsers[id] !== undefined\<close> skips the
  stop, \<open>delete\<close> does nothing, and the action ends normally.
\<close>

definition control_del :: "string \<Rightarrow> world \<Rightarrow> error option \<times> world" where
  "control_del bid w =
     (case lookup w bid of
        Absent \<Rightarrow> (None, emit (Syslog Info ''instance'' (Deleted (Str bid) bid)) (remove bid w))
      | Inherited \<Rightarrow> (Some TypeError, w)
      | Own b \<Rightarrow>
          let t = (if truthy (title b) then title b else Str bid);
              (r, w1) = (if running b then control_stop bid w else (None, w))
          in case r of
               Some e \<Rightarrow> (Some e, w1)
             | None \<Rightarrow> (None, emit (Syslog Info ''instance'' (Deleted t bid)) (remove bid w1)))"

subsection \<open>The bulk actions and the dispatcher\<close>

text \<open>
  \<open>start-all\<close>, \<open>reload-all\<close> and \<open>stop-all\<close> walk over \<open>Object.keys(browsers)\<close>, test each
  instance and call the single-instance action on the eligible ones without awaiting it.
  Such a call runs the action up to its first \<open>await\<close>, which in \<open>start\<close> and \<open>stop\<close> is the
  call on the worker, and returns a pending promise; \<open>reload\<close> has no \<open>await\<close> and runs to its
  end. Only then the next id is tested. After the loop \<open>Promise.all\<close> awaits the pending
  actions, each of which goes on when the worker has settled its call. The two halves of
  \<open>start\<close> and \<open>stop\<close> are \<open>begin_start\<close>, \<open>finish_start\<close>, \<open>begin_stop\<close> and \<open>finish_stop\<close>;
  one after the other they are the single action.
\<close>

definition begin_start :: "string \<Rightarrow> world \<Rightarrow> error option \<times> world" where
  "begin_start bid w =
     (case lookup w bid of
        Absent \<Rightarrow> (Some UnknownInstance, w)
      | Inherited \<Rightarrow> (Some TypeError, w)
      | Own b \<Rightarrow>
          if running b then (Some AlreadyRunning, w)
          else if \<not> valid b then (Some InvalidConfig, w)
          else (None, emit (Worker bid WStart) (emit (SendId ''browser-start'' bid) w)))"

definition finish_start :: "env \<Rightarrow> string \<Rightarrow> world \<Rightarrow> world" where
  "finish_start env bid w =
     (case lookup w bid of
        Own b \<Rightarrow>
          if worker_start env bid then
            emit (Syslog Info ''instance'' (Started (title b) bid))
              (emit (SendId ''browser-started'' bid) (mutate bid (b\<lparr>running := True\<rparr>) w))
          else
            mutate bid (b\<lparr>running := False\<rparr>)
              (emit (Worker bid WStop)
                 (emit (Syslog Error ''instance'' (StartFailed (title b) bid))
                    (emit (SendId ''browser-failed'' bid) w)))
      | Inherited \<Rightarrow> w
      | Absent \<Rightarrow> w)"

definition begin_stop :: "string \<Rightarrow> world \<Rightarrow> error option \<times> world" where
  "begin_stop bid w =
     (case lookup w bid of
        Absent \<Rightarrow> (Some UnknownInstance, w)
      | Inherited \<Rightarrow> (Some TypeError, w)
      | Own b \<Rightarrow>
          if \<not> running b then (Some NotRunning, w)
          else (None, emit (Worker bid WStop) (emit (SendId ''browser-stop'' bid) w)))"

definition finish_stop :: "string \<Rightarrow> world \<Rightarrow> world" where
  "finish_stop bid w =
     (case lookup w bid of
        Own b \<Rightarrow>
          emit (Syslog Info ''instance'' (Stopped (title b) bid))
            (emit (SendId ''browser-stopped'' bid) (mutate bid (b\<lparr>running := False\<rparr>) w))
      | Inherited \<Rightarrow> w
      | Absent \<Rightarrow> w)"

text \<open>
  The loop of a bulk action: the first halves, in the order of the keys. It yields the
  first error (a rejected promise, or the \<open>TypeError\<close> of a test on an id without entry,
  which \<open>Object.keys\<close> never yields), the ids whose action is pending, and the state.
\<close>

fun bulk_begin ::
  "(browser \<Rightarrow> bool) \<Rightarrow> (string \<Rightarrow> world \<Rightarrow> error option \<times> world) \<Rightarrow>
     string list \<Rightarrow> world \<Rightarrow> error option \<times> string list \<times> world" where
  "bulk_begin eligible begin [] w = (None, [], w)"
| "bulk_begin eligible begin (bid # ids) w =
     (case lookup w bid of
        Own b \<Rightarrow>
          if eligible b then
            (case begin bid w of
               (Some e, w1) \<Rightarrow>
                 (case bulk_begin eligible begin ids w1 of
                    (r, pending, w2) \<Rightarrow> (Some e, pending, w2))
             | (None, w1) \<Rightarrow>
                 (case bulk_begin eligible begin ids w1 of
                    (r, pending, w2) \<Rightarrow> (r, bid # pending, w2)))
          else bulk_begin eligible begin ids w
      | Inherited \<Rightarrow> (Some TypeError, [], w)
      | Absent \<Rightarrow> (Some TypeError, [], w))"

text \<open>
  The pending actions go on in the order in which the worker settles their calls: by the
  time the environment gives, and in the order of the calls where the times are equal.
\<close>

definition settle_order :: "env \<Rightarrow> worker_call \<Rightarrow> string list \<Rightarrow> string list" where
  "settle_order env call ids = sort_key (worker_time env call) ids"

definition bulk ::
  "(browser \<Rightarrow> bool) \<Rightarrow> (string \<Rightarrow> world \<Rightarrow> error option \<times> world) \<Rightarrow>
     (string \<Rightarrow> world \<Rightarrow> world) \<Rightarrow> (string list \<Rightarrow> string list) \<Rightarrow>
     string list \<Rightarrow> world \<Rightarrow> error option \<times> world" where
  "bulk eligible begin finish order ids w =
     (case bulk_begin eligible begin ids w of
        (r, pending, w1) \<Rightarrow> (r, foldl (\<lambda>w' bid. finish bid w') w1 (order pending)))"

definition control_start_all :: "env \<Rightarrow> world \<Rightarrow> error option \<times> world" where
  "control_start_all env w =
     bulk (\<lambda>b. \<not> running b \<and> valid b) begin_start (finish_start env)
       (settle_order env WStart) (map fst (browsers w)) w"

definition control_reload_all :: "world \<Rightarrow> error option \<times> world" where
  "control_reload_all w =
     bulk running control_reload (\<lambda>bid w'. w') (\<lambda>ids. ids) (map fst (browsers w)) w"

definition control_stop_all :: "env \<Rightarrow> world \<Rightarrow> error option \<times> world" where
  "control_stop_all env w =
     bulk running begin_stop finish_stop (settle_order env WStop) (map fst (browsers w)) w"

text \<open>
  \<open>prune\<close> calls \<open>stop()\<close> on each running instance without awaiting it or notifying anyone,
  and deletes every entry.
\<close>

fun prune_each :: "string list \<Rightarrow> world \<Rightarrow> error option \<times> world" where
  "prune_each [] w = (None, w)"
| "prune_each (bid # ids) w =
     (case lookup w bid of
        Own b \<Rightarrow> prune_each ids (remove bid (if running b then emit (Worker bid WStop) w else w))
      | Inherited \<Rightarrow> (Some TypeError, w)
      | Absent \<Rightarrow> (Some TypeError, w))"

definition control_prune :: "world \<Rightarrow> error option \<times> world" where
  "control_prune w = prune_each (map fst (browsers w)) w"

text \<open>
  \<open>controlBrowser(action, id, cfg)\<close>: the chain of comparisons of the source, in its order.
  An action that is none of the eleven does nothing.
\<close>

definition controlBrowser ::
  "env \<Rightarrow> string \<Rightarrow> string \<Rightarrow> object \<Rightarrow> world \<Rightarrow> error option \<times> world" where
  "controlBrowser env action bid c w =
     (if action = ''prune'' then control_prune w
      else if action = ''add'' then control_add bid c w
      else if action = ''mod'' then control_mod bid c w
      else if action = ''del'' then control_del bid w
      else if action = ''start-all'' then control_start_all env w
      else if action = ''reload-all'' then control_reload_all w
      else if action = ''stop-all'' then control_stop_all env w
      else if action = ''start'' then control_start env bid w
      else if action = ''reload'' then control_reload bid w
      else if action = ''stop'' then control_stop bid w
      else if action = ''clear'' then control_clear bid w
      else (None, w))"

text \<open>The ids on which the worker's \<open>start()\<close> was called, in the order of the calls.\<close>

fun start_attempts :: "event list \<Rightarrow> string list" where
  "start_attempts [] = []"
| "start_attempts (Worker bid WStart # es) = bid # start_attempts es"
| "start_attempts (e # es) = start_attempts es"

text \<open>A registry is well formed when no id occurs twice, as in any object.\<close>

definition wf_registry :: "world \<Rightarrow> bool" where
  "wf_registry w \<longleftrightarrow> distinct (map fst (browsers w))"

text \<open>
  The state after start-up and before any instance exists, and an environment in which
  every start succeeds.
\<close>

definition world0 :: world where
  "world0 = \<lparr>browsers = [], store = None, configVersion = 0, timer = True,
             autosaveTimer = True, autosaveFile = ''/data/Configurations/autosave.yaml'',
             configFile = None, api_server = False, webui_server = False,
             control_destroyed = False, uuid_count = 0,
             trace = []\<rparr>"

subsection \<open>Notions used in the statements, and example states\<close>

text \<open>
  An environment for the examples. Every start succeeds and every file is written; all
  calls on the worker settle at the same time, that is, in the order in which they were
  made. The conversions between numbers and strings know the numbers of the table below;
  \<open>Number\<close> yields \<open>NaN\<close> for a string that is no numeral. \<open>jsYAML.dump\<close> prints a boolean, a
  number of the table and a string without special characters (between double quotes),
  followed by a line break; the parser of this environment knows only the text without
  document and throws on any other text.
\<close>

definition numerals0 :: "(real \<times> string) list" where
  "numerals0 =
     [(0, ''0''), (1, ''1''), (2, ''2''), (5, ''5''), (30, ''30''), (300, ''300''),
      (720, ''720''), (1280, ''1280''), (1920, ''1920''), (48000, ''48000'')]"

definition NumberToString0 :: "real \<Rightarrow> string" where
  "NumberToString0 r = (case map_of numerals0 r of Some s \<Rightarrow> s | None \<Rightarrow> ''0'')"

definition StringToNumber0 :: "string \<Rightarrow> jsnum" where
  "StringToNumber0 s =
     (case map_of (map (\<lambda>(r, s). (s, r)) numerals0) s of
        Some r \<Rightarrow> Fin r
      | None \<Rightarrow>
          if s = [] then Fin 0 else if s = ''1.0'' then Fin 1
          else if s = ''Infinity'' then Inf True else if s = ''-Infinity'' then Inf False
          else NaN)"

definition dump0 :: "jsval \<Rightarrow> string" where
  "dump0 v =
     (case v of
        Bool b \<Rightarrow> (if b then ''true'' else ''false'')
      | Num (Fin r) \<Rightarrow> NumberToString0 r
      | Num NaN \<Rightarrow> ''.nan''
      | Num (Inf s) \<Rightarrow> (if s then ''.inf'' else ''-.inf'')
      | Str s \<Rightarrow> [CHR 0x22] @ s @ [CHR 0x22]
      | _ \<Rightarrow> ''null'') @ [CHR 0x0A]"

definition env0 :: env where
  "env0 = \<lparr>worker_start = (\<lambda>bid. True), worker_time = (\<lambda>call bid. 0),
           new_UUID = (\<lambda>n. ''ID'' @ replicate n CHR ''X''),
           jsYAML_load = (\<lambda>text. if text = [] then YamlUndefined else YamlException),
           jsYAML_dump = dump0,
           StringToNumber = StringToNumber0, NumberToString = NumberToString0,
           Opaque_toNumber = (\<lambda>k. NaN), Opaque_toString = (\<lambda>k. ''[object Object]''),
           export_header = ''%YAML 1.2'' @ [CHR 0x0A] @ ''---'' @ [CHR 0x0A],
           autosave_header = ''%YAML 1.2'' @ [CHR 0x0A] @ ''---'' @ [CHR 0x0A],
           fs_writeFile = (\<lambda>file text. True)\<rparr>"

definition cfg_cam1 :: object where
  "cfg_cam1 = [(''t'', Str ''Cam1''), (''N'', Bool True)]"

definition cfg_untitled :: object where
  "cfg_untitled = [(''t'', Str []), (''N'', Bool True)]"

definition world_added :: world where
  "world_added = snd (controlBrowser env0 ''add'' ''A1'' cfg_cam1 world0)"

definition world_started :: world where
  "world_started = snd (controlBrowser env0 ''start'' ''A1'' [] world_added)"

definition world_running_untitled :: world where
  "world_running_untitled = snd (controlBrowser env0 ''mod'' ''A1'' cfg_untitled world_started)"

definition start_eligible :: "world \<Rightarrow> string \<Rightarrow> bool" where
  "start_eligible w bid =
     (case lookup w bid of Own b \<Rightarrow> \<not> running b \<and> valid b | Inherited \<Rightarrow> False | Absent \<Rightarrow> False)"

definition new_attempts :: "world \<Rightarrow> world \<Rightarrow> string list" where
  "new_attempts w w' = drop (length (start_attempts (trace w))) (start_attempts (trace w'))"

definition world_untitled :: world where
  "world_untitled = snd (controlBrowser env0 ''add'' ''A1'' cfg_untitled world0)"

definition world_three :: world where
  "world_three =
     snd (controlBrowser env0 ''start'' ''C3'' []
       (snd (controlBrowser env0 ''add'' ''C3'' cfg_cam1
         (snd (controlBrowser env0 ''add'' ''B2'' cfg_untitled world_added)))))"

subsection \<open>Properties of the state machine\<close>

lemmas control_defs =
  controlBrowser_def control_add_def control_mod_def control_start_def control_stop_def
  control_del_def lookup_def assign_def mutate_def remove_def emit_def new_Browser_def
  reconfigure_def title_def valid_def get_prop_def Object_prototype_names_def
  array_index_def Let_def

lemma world_added_eq:
  "world_added = world0\<lparr>browsers := [(''A1'', \<lparr>cfg = cfg_cam1, running = False\<rparr>)],
       trace := [Syslog Info ''instance'' (Added (Str ''Cam1'') ''A1'')]\<rparr>"
  by (simp add: world_added_def control_defs world0_def cfg_cam1_def)

lemma world_started_eq:
  "world_started = world0\<lparr>browsers := [(''A1'', \<lparr>cfg = cfg_cam1, running = True\<rparr>)],
       trace := [Syslog Info ''instance'' (Added (Str ''Cam1'') ''A1''),
                 SendId ''browser-start'' ''A1'', Worker ''A1'' WStart,
                 SendId ''browser-started'' ''A1'',
                 Syslog Info ''instance'' (Started (Str ''Cam1'') ''A1'')]\<rparr>"
  by (simp add: world_started_def world_added_eq control_defs world0_def cfg_cam1_def env0_def)

lemma world_running_untitled_eq:
  "world_running_untitled = world0\<lparr>browsers := [(''A1'', \<lparr>cfg = cfg_untitled, running = True\<rparr>)],
       trace := [Syslog Info ''instance'' (Added (Str ''Cam1'') ''A1''),
                 SendId ''browser-start'' ''A1'', Worker ''A1'' WStart,
                 SendId ''browser-started'' ''A1'',
                 Syslog Info ''instance'' (Started (Str ''Cam1'') ''A1''),
                 Syslog Info ''instance'' (Modified (Str []) ''A1'')]\<rparr>"
  by (simp add: world_running_untitled_def world_started_eq control_defs world0_def cfg_untitled_def)

text \<open>
  The claim as stated promises \<open>InvalidConfig\<close> for every instance whose configuration is
  not valid. The guards are tested in the order unknown, running, valid: an instance that
  was started and then modified (\<open>mod\<close> has no guard on the status) to an empty title is
  running and not valid, and \<open>start\<close> on it throws \<open>AlreadyRunning\<close>.
\<close>

theorem start_running_invalid_counterexample:
  "lookup world_running_untitled ''A1'' = Own \<lparr>cfg = cfg_untitled, running = True\<rparr> \<and>
   \<not> valid \<lparr>cfg = cfg_untitled, running = True\<rparr> \<and>
   controlBrowser env0 ''start'' ''A1'' [] world_running_untitled =
     (Some AlreadyRunning, world_running_untitled)"
  by (simp add: world_running_untitled_eq control_defs world0_def cfg_untitled_def)

text \<open>
  Claim C2, as the code has it. \<open>start\<close> on an id without entry (and not a name that
  every object inherits) throws \<open>UnknownInstance\<close>; \<open>start\<close> on a running instance throws
  \<open>AlreadyRunning\<close>; \<open>start\<close> on an instance that is not running and whose
  configuration is not valid throws \<open>InvalidConfig\<close>; \<open>stop\<close> on an instance that is not
  running throws \<open>NotRunning\<close>. In each case the whole state, the registry included, is
  as before.
\<close>

theorem start_stop_guards:
  "(lookup w bid = Absent \<longrightarrow>
      controlBrowser env ''start'' bid c w = (Some UnknownInstance, w)) \<and>
   (\<forall>b. lookup w bid = Own b \<and> running b \<longrightarrow>
      controlBrowser env ''start'' bid c w = (Some AlreadyRunning, w)) \<and>
   (\<forall>b. lookup w bid = Own b \<and> \<not> running b \<and> \<not> valid b \<longrightarrow>
      controlBrowser env ''start'' bid c w = (Some InvalidConfig, w)) \<and>
   (\<forall>b. lookup w bid = Own b \<and> \<not> running b \<longrightarrow>
      controlBrowser env ''stop'' bid c w = (Some NotRunning, w))"
  by (simp add: controlBrowser_def control_start_def control_stop_def)


lemma lookup_emit [simp]: "lookup (emit e w) k = lookup w k"
  by (simp add: lookup_def emit_def)

lemma lookup_mutate: "lookup (mutate bid b w) k = (if k = bid then Own b else lookup w k)"
  by (simp add: lookup_def mutate_def update_conv')

lemma lookup_remove_same: "map_of (browsers (remove bid w)) bid = None"
  by (simp add: remove_def delete_conv')

lemma remove_absent: "map_of (browsers w) bid = None \<Longrightarrow> remove bid w = w"
  by (simp add: remove_def map_of_eq_None_iff)

lemma lookup_Absent_None: "lookup w bid = Absent \<Longrightarrow> map_of (browsers w) bid = None"
  by (auto simp: lookup_def split: option.splits if_splits)

lemma browsers_emit [simp]: "browsers (emit e w) = browsers w"
  by (simp add: emit_def)

lemma control_stop_running:
  assumes "lookup w bid = Own b" and "running b"
  shows "control_stop bid w =
           (None, emit (Syslog Info ''instance'' (Stopped (title b) bid))
                    (emit (SendId ''browser-stopped'' bid)
                       (mutate bid (b\<lparr>running := False\<rparr>)
                          (emit (Worker bid WStop) (emit (SendId ''browser-stop'' bid) w)))))"
  using assms by (simp add: control_stop_def)

lemma controlBrowser_start: "controlBrowser env ''start'' bid c w = control_start env bid w"
  by (simp add: controlBrowser_def)

text \<open>
  Claim C3, as the code has it. \<open>del\<close> on an id without entry (and not a name that every
  object inherits) does not fail: it sends the syslog line and leaves the state otherwise
  as it was. \<open>del\<close> on a running instance first
  performs the \<open>stop\<close> action, after which the instance is stopped, and then removes the
  entry from that state. \<open>del\<close> on any instance ends normally with the entry gone, so that
  a later \<open>start\<close> on the id throws \<open>UnknownInstance\<close>.
\<close>

theorem del_stops_then_removes:
  "(lookup w bid = Absent \<longrightarrow>
      controlBrowser env ''del'' bid c w =
        (None, emit (Syslog Info ''instance'' (Deleted (Str bid) bid)) w)) \<and>
   (\<forall>b. lookup w bid = Own b \<and> running b \<longrightarrow>
      fst (controlBrowser env ''stop'' bid c w) = None \<and>
      lookup (snd (controlBrowser env ''stop'' bid c w)) bid = Own (b\<lparr>running := False\<rparr>) \<and>
      controlBrowser env ''del'' bid c w =
        (None, emit (Syslog Info ''instance''
                       (Deleted (if truthy (title b) then title b else Str bid) bid))
                 (remove bid (snd (controlBrowser env ''stop'' bid c w))))) \<and>
   (\<forall>b. lookup w bid = Own b \<longrightarrow>
      fst (controlBrowser env ''del'' bid c w) = None \<and>
      map_of (browsers (snd (controlBrowser env ''del'' bid c w))) bid = None \<and>
      (bid \<notin> set Object_prototype_names \<longrightarrow>
         fst (controlBrowser env ''start'' bid c (snd (controlBrowser env ''del'' bid c w))) =
           Some UnknownInstance))"
proof (intro conjI allI impI)
  assume "lookup w bid = Absent"
  then show "controlBrowser env ''del'' bid c w =
      (None, emit (Syslog Info ''instance'' (Deleted (Str bid) bid)) w)"
    by (simp add: controlBrowser_def control_del_def remove_absent [OF lookup_Absent_None])
next
  fix b assume a: "lookup w bid = Own b \<and> running b"
  then have s: "control_stop bid w =
           (None, emit (Syslog Info ''instance'' (Stopped (title b) bid))
                    (emit (SendId ''browser-stopped'' bid)
                       (mutate bid (b\<lparr>running := False\<rparr>)
                          (emit (Worker bid WStop) (emit (SendId ''browser-stop'' bid) w)))))"
    using control_stop_running by blast
  show "fst (controlBrowser env ''stop'' bid c w) = None"
    by (simp add: controlBrowser_def s)
  show "lookup (snd (controlBrowser env ''stop'' bid c w)) bid = Own (b\<lparr>running := False\<rparr>)"
    by (simp add: controlBrowser_def s lookup_mutate)
  show "controlBrowser env ''del'' bid c w =
        (None, emit (Syslog Info ''instance''
                       (Deleted (if truthy (title b) then title b else Str bid) bid))
                 (remove bid (snd (controlBrowser env ''stop'' bid c w))))"
    using a by (simp add: controlBrowser_def control_del_def s)
next
  fix b assume a: "lookup w bid = Own b"
  show "fst (controlBrowser env ''del'' bid c w) = None"
  proof (cases "running b")
    case True
    with a show ?thesis
      by (simp add: controlBrowser_def control_del_def control_stop_running [OF a True])
  next
    case False
    with a show ?thesis by (simp add: controlBrowser_def control_del_def)
  qed
  show gone: "map_of (browsers (snd (controlBrowser env ''del'' bid c w))) bid = None"
  proof (cases "running b")
    case True
    with a show ?thesis
      by (simp add: controlBrowser_def control_del_def control_stop_running [OF a True]
          lookup_remove_same)
  next
    case False
    with a show ?thesis by (simp add: controlBrowser_def control_del_def lookup_remove_same)
  qed
  assume "bid \<notin> set Object_prototype_names"
  with gone have "lookup (snd (controlBrowser env ''del'' bid c w)) bid = Absent"
    by (simp add: lookup_def)
  then show "fst (controlBrowser env ''start'' bid c (snd (controlBrowser env ''del'' bid c w))) =
           Some UnknownInstance"
    by (simp add: controlBrowser_start control_start_def)
qed

text \<open>
  The claim as stated makes \<open>del\<close> fail on an unknown id. In the empty registry \<open>del\<close>
  ends normally.
\<close>

theorem del_unknown_counterexample:
  "lookup world0 ''A1'' = Absent \<and>
   controlBrowser env0 ''del'' ''A1'' [] world0 =
     (None, world0\<lparr>trace := [Syslog Info ''instance'' (Deleted (Str ''A1'') ''A1'')]\<rparr>)"
  by (simp add: control_defs world0_def)

text \<open>
  An id that names a property of \<open>Object.prototype\<close> has no entry, yet \<open>browsers[id]\<close> is
  not \<open>undefined\<close>: the guard for unknown ids passes, and the call of \<open>running()\<close> on what
  was found throws.
\<close>

lemma start_inherited_name:
  "controlBrowser env0 ''start'' ''constructor'' [] world0 = (Some TypeError, world0)"
  by (simp add: controlBrowser_def control_start_def lookup_def world0_def
      Object_prototype_names_def)


lemma start_attempts_append:
  "start_attempts (xs @ ys) = start_attempts xs @ start_attempts ys"
  by (induction xs rule: start_attempts.induct) simp_all

lemma trace_emit: "trace (emit e w) = trace w @ [e]"
  by (simp add: emit_def)

lemma trace_mutate [simp]: "trace (mutate bid b w) = trace w"
  by (simp add: mutate_def)

lemma trace_remove [simp]: "trace (remove bid w) = trace w"
  by (simp add: remove_def)

lemma lookup_trace [simp]: "lookup (w\<lparr>trace := t\<rparr>) k = lookup w k"
  by (simp add: lookup_def)

lemma control_start_halves:
  "control_start env bid w =
     (case begin_start bid w of
        (Some e, w1) \<Rightarrow> (Some e, w1)
      | (None, w1) \<Rightarrow> (None, finish_start env bid w1))"
  by (simp add: control_start_def begin_start_def finish_start_def Let_def split: entry.splits)

lemma control_stop_halves:
  "control_stop bid w =
     (case begin_stop bid w of
        (Some e, w1) \<Rightarrow> (Some e, w1)
      | (None, w1) \<Rightarrow> (None, finish_stop bid w1))"
  by (simp add: control_stop_def begin_stop_def finish_stop_def split: entry.splits)

text \<open>
  The loop of a bulk action whose first half, on an eligible instance, only emits events:
  it fails on no id of the registry, the pending ids are the eligible ones, and the events
  are those of the first halves, in the order of the keys.
\<close>

definition eligible_id :: "(browser \<Rightarrow> bool) \<Rightarrow> world \<Rightarrow> string \<Rightarrow> bool" where
  "eligible_id eligible w bid =
     (case lookup w bid of Own b \<Rightarrow> eligible b | Inherited \<Rightarrow> False | Absent \<Rightarrow> False)"

lemma eligible_id_trace [simp]: "eligible_id eligible (w\<lparr>trace := t\<rparr>) = eligible_id eligible w"
  by (simp add: fun_eq_iff eligible_id_def)

lemma bulk_begin_events:
  assumes own: "\<forall>bid \<in> set ids. \<exists>b. lookup w bid = Own b"
    and beg: "\<And>bid b w'. lookup w' bid = Own b \<Longrightarrow> eligible b \<Longrightarrow>
                begin bid w' = (None, w'\<lparr>trace := trace w' @ ev bid\<rparr>)"
  shows "bulk_begin eligible begin ids w =
           (None, filter (eligible_id eligible w) ids,
            w\<lparr>trace := trace w @ concat (map ev (filter (eligible_id eligible w) ids))\<rparr>)"
  using own
proof (induction ids arbitrary: w)
  case Nil
  then show ?case by simp
next
  case (Cons bid ids)
  then obtain b where b: "lookup w bid = Own b" by auto
  show ?case
  proof (cases "eligible b")
    case True
    let ?w1 = "w\<lparr>trace := trace w @ ev bid\<rparr>"
    have own1: "\<forall>k \<in> set ids. \<exists>b. lookup ?w1 k = Own b"
      using Cons.prems by simp
    have e: "eligible_id eligible w bid" using b True by (simp add: eligible_id_def)
    show ?thesis
      using b True e beg [OF b True] Cons.IH [OF own1] by simp
  next
    case False
    have own0: "\<forall>k \<in> set ids. \<exists>b. lookup w k = Own b"
      using Cons.prems by simp
    have e: "\<not> eligible_id eligible w bid" using b False by (simp add: eligible_id_def)
    show ?thesis
      using b False e Cons.IH [OF own0] by simp
  qed
qed

lemma begin_start_events:
  assumes "lookup w bid = Own b" and "\<not> running b \<and> valid b"
  shows "begin_start bid w =
           (None, w\<lparr>trace := trace w @ [SendId ''browser-start'' bid, Worker bid WStart]\<rparr>)"
  using assms by (simp add: begin_start_def emit_def)

lemma begin_stop_events:
  assumes "lookup w bid = Own b" and "running b"
  shows "begin_stop bid w =
           (None, w\<lparr>trace := trace w @ [SendId ''browser-stop'' bid, Worker bid WStop]\<rparr>)"
  using assms by (simp add: begin_stop_def emit_def)

lemma start_attempts_begin_events:
  "start_attempts (concat (map (\<lambda>bid. [SendId ''browser-start'' bid, Worker bid WStart]) ids)) = ids"
  by (induction ids) simp_all

lemma finish_start_no_start:
  "start_attempts (trace (finish_start env bid w)) = start_attempts (trace w)"
  by (simp add: finish_start_def trace_emit start_attempts_append split: entry.splits)

lemma finish_stop_no_start:
  "start_attempts (trace (finish_stop bid w)) = start_attempts (trace w)"
  by (simp add: finish_stop_def trace_emit start_attempts_append split: entry.splits)

lemma foldl_no_start:
  assumes "\<And>bid w. start_attempts (trace (finish bid w)) = start_attempts (trace w)"
  shows "start_attempts (trace (foldl (\<lambda>w' bid. finish bid w') w ids)) = start_attempts (trace w)"
  by (induction ids arbitrary: w) (simp_all add: assms)

lemma start_eligible_alt: "start_eligible w = eligible_id (\<lambda>b. \<not> running b \<and> valid b) w"
  by (simp add: fun_eq_iff start_eligible_def eligible_id_def)

lemma bulk_start_attempts:
  assumes "\<forall>bid \<in> set ids. \<exists>b. lookup w bid = Own b"
  shows "start_attempts (trace (snd (bulk (\<lambda>b. \<not> running b \<and> valid b) begin_start
             (finish_start env) order ids w))) =
           start_attempts (trace w) @ filter (start_eligible w) ids"
proof -
  have b: "bulk_begin (\<lambda>b. \<not> running b \<and> valid b) begin_start ids w =
      (None, filter (start_eligible w) ids,
       w\<lparr>trace := trace w @
          concat (map (\<lambda>bid. [SendId ''browser-start'' bid, Worker bid WStart])
                    (filter (start_eligible w) ids))\<rparr>)"
    unfolding start_eligible_alt
    by (rule bulk_begin_events [OF assms]) (rule begin_start_events)
  show ?thesis
    unfolding bulk_def b
    by (simp add: foldl_no_start [of "finish_start env", OF finish_start_no_start]
        start_attempts_append start_attempts_begin_events)
qed

lemma bulk_begin_no_start:
  assumes "\<And>bid w. start_attempts (trace (snd (begin bid w))) = start_attempts (trace w)"
  shows "start_attempts (trace (snd (snd (bulk_begin elig begin ids w)))) = start_attempts (trace w)"
proof (induction ids arbitrary: w)
  case Nil
  then show ?case by simp
next
  case (Cons bid ids)
  show ?case
  proof (cases "lookup w bid")
    case (Own b)
    show ?thesis
    proof (cases "elig b")
      case True
      have "start_attempts (trace (snd (snd (bulk_begin elig begin ids (snd (begin bid w)))))) =
            start_attempts (trace w)"
        by (simp add: Cons.IH assms)
      with Own True show ?thesis
        by (cases "begin bid w") (auto simp: split_beta split: option.splits)
    next
      case False
      with Own Cons.IH show ?thesis by simp
    qed
  qed simp_all
qed

lemma bulk_no_start:
  assumes "\<And>bid w. start_attempts (trace (snd (begin bid w))) = start_attempts (trace w)"
    and "\<And>bid w. start_attempts (trace (finish bid w)) = start_attempts (trace w)"
  shows "start_attempts (trace (snd (bulk elig begin finish order ids w))) = start_attempts (trace w)"
  unfolding bulk_def
  by (simp add: split_beta foldl_no_start [of finish, OF assms(2)] bulk_begin_no_start [OF assms(1)])

lemma begin_stop_no_start:
  "start_attempts (trace (snd (begin_stop bid w))) = start_attempts (trace w)"
  by (simp add: begin_stop_def trace_emit start_attempts_append split: entry.splits)

lemma control_stop_no_start:
  "start_attempts (trace (snd (control_stop bid w))) = start_attempts (trace w)"
  by (simp add: control_stop_def trace_emit start_attempts_append split: entry.splits)

lemma control_reload_no_start:
  "start_attempts (trace (snd (control_reload bid w))) = start_attempts (trace w)"
  by (simp add: control_reload_def trace_emit start_attempts_append split: entry.splits)

lemma prune_each_no_start:
  "start_attempts (trace (snd (prune_each ids w))) = start_attempts (trace w)"
  by (induction ids arbitrary: w)
     (simp_all add: trace_emit start_attempts_append split: entry.splits)

lemma wf_registry_own:
  "\<forall>bid \<in> set (map fst (browsers w)). \<exists>b. lookup w bid = Own b"
proof
  fix bid assume "bid \<in> set (map fst (browsers w))"
  then obtain b where "map_of (browsers w) bid = Some b"
    by (metis map_of_eq_None_iff not_Some_eq set_map)
  then show "\<exists>b. lookup w bid = Own b" by (simp add: lookup_def)
qed

lemma invalid_untitled: "get_prop (cfg b) ''t'' = Str [] \<Longrightarrow> \<not> valid b"
  by (simp add: valid_def)

lemma controlBrowser_prune: "controlBrowser env ''prune'' bid c w = control_prune w"
  by (simp add: controlBrowser_def)

lemma controlBrowser_start_all: "controlBrowser env ''start-all'' bid c w = control_start_all env w"
  by (simp add: controlBrowser_def)

lemma controlBrowser_reload_all: "controlBrowser env ''reload-all'' bid c w = control_reload_all w"
  by (simp add: controlBrowser_def)

lemma controlBrowser_stop_all: "controlBrowser env ''stop-all'' bid c w = control_stop_all env w"
  by (simp add: controlBrowser_def)

text \<open>
  Claim C6. In a well-formed registry, the instances on which \<open>start-all\<close> calls the
  worker's \<open>start()\<close> are exactly those that are not running and valid, in the order of
  the registry; an instance whose title is empty is not among them; and the other bulk
  actions (\<open>reload-all\<close>, \<open>stop-all\<close>, \<open>prune\<close>) start nothing.
\<close>

theorem start_all_attempts_eligible:
  assumes "wf_registry w"
  shows "new_attempts w (snd (controlBrowser env ''start-all'' bid c w)) =
           filter (start_eligible w) (map fst (browsers w)) \<and>
         (\<forall>k b. lookup w k = Own b \<and> get_prop (cfg b) ''t'' = Str [] \<longrightarrow>
            k \<notin> set (new_attempts w (snd (controlBrowser env ''start-all'' bid c w)))) \<and>
         (\<forall>action \<in> {''reload-all'', ''stop-all'', ''prune''}.
            new_attempts w (snd (controlBrowser env action bid c w)) = [])"
proof -
  have d: "distinct (map fst (browsers w))" using assms by (simp add: wf_registry_def)
  have main: "new_attempts w (snd (controlBrowser env ''start-all'' bid c w)) =
           filter (start_eligible w) (map fst (browsers w))"
    using bulk_start_attempts [OF wf_registry_own]
    by (simp add: controlBrowser_start_all control_start_all_def new_attempts_def)
  have untitled: "k \<notin> set (new_attempts w (snd (controlBrowser env ''start-all'' bid c w)))"
    if "lookup w k = Own b \<and> get_prop (cfg b) ''t'' = Str []" for k b
    using that invalid_untitled [of b] by (simp add: main start_eligible_def)
  have others: "new_attempts w (snd (controlBrowser env action bid c w)) = []"
    if "action \<in> {''reload-all'', ''stop-all'', ''prune''}" for action
  proof -
    have r: "new_attempts w (snd (controlBrowser env ''reload-all'' bid c w)) = []"
      unfolding controlBrowser_reload_all control_reload_all_def new_attempts_def
      by (simp add: bulk_no_start [of control_reload "\<lambda>bid w'. w'", OF control_reload_no_start])
    have s: "new_attempts w (snd (controlBrowser env ''stop-all'' bid c w)) = []"
      unfolding controlBrowser_stop_all control_stop_all_def new_attempts_def
      by (simp add: bulk_no_start [of begin_stop finish_stop, OF begin_stop_no_start
            finish_stop_no_start])
    have p: "new_attempts w (snd (controlBrowser env ''prune'' bid c w)) = []"
      unfolding controlBrowser_prune control_prune_def new_attempts_def
      by (simp add: prune_each_no_start)
    from that consider "action = ''reload-all''" | "action = ''stop-all''" | "action = ''prune''"
      by blast
    then show ?thesis using r s p by cases simp_all
  qed
  from main untitled others show ?thesis by blast
qed


lemma world_untitled_eq:
  "world_untitled = world0\<lparr>browsers := [(''A1'', \<lparr>cfg = cfg_untitled, running = False\<rparr>)],
       trace := [Syslog Info ''instance'' (Added (Str []) ''A1'')]\<rparr>"
  by (simp add: world_untitled_def control_defs world0_def cfg_untitled_def)

lemma browsers_world_three:
  "browsers world_three =
     [(''A1'', \<lparr>cfg = cfg_cam1, running = False\<rparr>),
      (''B2'', \<lparr>cfg = cfg_untitled, running = False\<rparr>),
      (''C3'', \<lparr>cfg = cfg_cam1, running = True\<rparr>)]"
  by (simp add: world_three_def world_added_eq control_defs world0_def cfg_cam1_def
      cfg_untitled_def env0_def)

theorem start_stop_guards_witness:
  "controlBrowser env0 ''start'' ''A1'' [] world0 = (Some UnknownInstance, world0) \<and>
   controlBrowser env0 ''start'' ''A1'' [] world_started = (Some AlreadyRunning, world_started) \<and>
   controlBrowser env0 ''start'' ''A1'' [] world_untitled = (Some InvalidConfig, world_untitled) \<and>
   controlBrowser env0 ''stop'' ''A1'' [] world_added = (Some NotRunning, world_added)"
proof -
  have 0: "lookup world0 ''A1'' = Absent"
    by (simp add: lookup_def world0_def Object_prototype_names_def)
  have 1: "lookup world_started ''A1'' = Own \<lparr>cfg = cfg_cam1, running = True\<rparr>"
    by (simp add: lookup_def world_started_eq)
  have 2: "lookup world_untitled ''A1'' = Own \<lparr>cfg = cfg_untitled, running = False\<rparr>"
    and 3: "\<not> valid \<lparr>cfg = cfg_untitled, running = False\<rparr>"
    by (simp_all add: lookup_def world_untitled_eq valid_def cfg_untitled_def get_prop_def)
  have 4: "lookup world_added ''A1'' = Own \<lparr>cfg = cfg_cam1, running = False\<rparr>"
    by (simp add: lookup_def world_added_eq)
  from 0 1 2 3 4
    start_stop_guards [of world0 "''A1''" env0 "[]"]
    start_stop_guards [of world_started "''A1''" env0 "[]"]
    start_stop_guards [of world_untitled "''A1''" env0 "[]"]
    start_stop_guards [of world_added "''A1''" env0 "[]"]
  show ?thesis by simp
qed

theorem del_stops_then_removes_witness:
  "controlBrowser env0 ''del'' ''A1'' [] world0 =
     (None, emit (Syslog Info ''instance'' (Deleted (Str ''A1'') ''A1'')) world0) \<and>
   lookup (snd (controlBrowser env0 ''stop'' ''A1'' [] world_started)) ''A1'' =
     Own \<lparr>cfg = cfg_cam1, running = False\<rparr> \<and>
   fst (controlBrowser env0 ''del'' ''A1'' [] world_started) = None \<and>
   map_of (browsers (snd (controlBrowser env0 ''del'' ''A1'' [] world_started))) ''A1'' = None \<and>
   fst (controlBrowser env0 ''start'' ''A1'' []
          (snd (controlBrowser env0 ''del'' ''A1'' [] world_started))) = Some UnknownInstance"
proof -
  have 0: "lookup world0 ''A1'' = Absent"
    by (simp add: lookup_def world0_def Object_prototype_names_def)
  have 1: "lookup world_started ''A1'' = Own \<lparr>cfg = cfg_cam1, running = True\<rparr>"
    by (simp add: lookup_def world_started_eq)
  have 2: "''A1'' \<notin> set Object_prototype_names"
    by (simp add: Object_prototype_names_def)
  from 0 del_stops_then_removes [of world0 "''A1''" env0 "[]"]
  have a: "controlBrowser env0 ''del'' ''A1'' [] world0 =
     (None, emit (Syslog Info ''instance'' (Deleted (Str ''A1'') ''A1'')) world0)"
    by blast
  from 1 2 del_stops_then_removes [of world_started "''A1''" env0 "[]"]
  have b: "lookup (snd (controlBrowser env0 ''stop'' ''A1'' [] world_started)) ''A1'' =
       Own (\<lparr>cfg = cfg_cam1, running = True\<rparr>\<lparr>running := False\<rparr>) \<and>
     fst (controlBrowser env0 ''del'' ''A1'' [] world_started) = None \<and>
     map_of (browsers (snd (controlBrowser env0 ''del'' ''A1'' [] world_started))) ''A1'' = None \<and>
     fst (controlBrowser env0 ''start'' ''A1'' []
          (snd (controlBrowser env0 ''del'' ''A1'' [] world_started))) = Some UnknownInstance"
    by auto
  from a b show ?thesis by simp
qed

theorem start_all_attempts_eligible_witness:
  "wf_registry world_three \<and>
   new_attempts world_three (snd (controlBrowser env0 ''start-all'' [] [] world_three)) = [''A1''] \<and>
   new_attempts world_three (snd (controlBrowser env0 ''stop-all'' [] [] world_three)) = []"
proof -
  have wf: "wf_registry world_three"
    by (simp add: wf_registry_def browsers_world_three)
  have e: "filter (start_eligible world_three) (map fst (browsers world_three)) = [''A1'']"
    by (simp add: start_eligible_def lookup_def browsers_world_three valid_def get_prop_def
        cfg_cam1_def cfg_untitled_def)
  from start_all_attempts_eligible [OF wf, of env0 "[]" "[]"] wf e show ?thesis by simp
qed

section \<open>Persistence, export and import\<close>

text \<open>
  \<open>saveConfigs\<close> writes the JSON text of what it is given to the store and increments
  \<open>configVersion\<close>.
\<close>

definition saveConfigs :: "configs \<Rightarrow> world \<Rightarrow> world" where
  "saveConfigs d w = w\<lparr>store := Some d, configVersion := configVersion w + 1\<rparr>"

text \<open>
  \<open>sanitizeConfig\<close> on an item of the array. On \<open>null\<close> the first statement (\<open>browser.it\<close>)
  throws. On a boolean, a number or a string every assignment and every \<open>delete\<close> is without
  effect (the code is not in strict mode), yet each is counted: one change for every field
  of the table, since no internal name is a property of a primitive value, and one for
  every key of \<open>Object.keys\<close>, which for a string are its indices.
\<close>

fun prim_keys :: "prim \<Rightarrow> nat" where
  "prim_keys (PStr s) = length s"
| "prim_keys p = 0"

fun sanitize_item :: "item \<Rightarrow> error + item \<times> nat" where
  "sanitize_item (Rec b) = Inr (Rec (fst (sanitizeConfig b)), snd (sanitizeConfig b))"
| "sanitize_item NullItem = Inl TypeError"
| "sanitize_item (Prim p) = Inr (Prim p, length fields + prim_keys p)"

fun sanitize_items :: "item list \<Rightarrow> error + item list \<times> nat" where
  "sanitize_items [] = Inr ([], 0)"
| "sanitize_items (x # xs) =
     (case sanitize_item x of
        Inl e \<Rightarrow> Inl e
      | Inr (x', c) \<Rightarrow>
          (case sanitize_items xs of
             Inl e \<Rightarrow> Inl e
           | Inr (xs', c') \<Rightarrow> Inr (x' # xs', c + c')))"

text \<open>
  \<open>loadConfigs\<close> reads the entry back (the empty array, counted as a change, when the entry
  is \<open>undefined\<close>), sanitizes every item and saves when anything changed. It returns what it
  has read, or throws before it saves. Over a string the loop runs once for every
  character, each of which counts as changed.
\<close>

definition loadConfigs :: "world \<Rightarrow> (error + configs) \<times> world" where
  "loadConfigs w =
     (case store w of
        None \<Rightarrow> (Inr (Items []), saveConfigs (Items []) w)
      | Some d \<Rightarrow>
          (case JSON_parse d of
             Items xs \<Rightarrow>
               (case sanitize_items xs of
                  Inl e \<Rightarrow> (Inl e, w)
                | Inr (xs', changed) \<Rightarrow>
                    (Inr (Items xs'), if changed > 0 then saveConfigs (Items xs') w else w))
           | Chars s \<Rightarrow> (Inr (Chars s), if s \<noteq> [] then saveConfigs (Chars s) w else w)))"

subsection \<open>Type coercion\<close>

text \<open>
  \<open>typeof\<close> as far as the coercions ask: one of the three declared types, or something else
  (\<open>"undefined"\<close>, \<open>"object"\<close>). The chain of the source is the same on export (with the
  exported type) and on import (with the internal type): a value that is not of the
  declared type is converted with \<open>Boolean\<close>, \<open>Number\<close> or \<open>String\<close>.
\<close>

fun typeof :: "jsval \<Rightarrow> jstype option" where
  "typeof (Bool b) = Some TBoolean"
| "typeof (Num n) = Some TNumber"
| "typeof (Str s) = Some TString"
| "typeof v = None"

definition coerce :: "env \<Rightarrow> jstype \<Rightarrow> jsval \<Rightarrow> jsval" where
  "coerce env ty v =
     (if ty = TBoolean \<and> typeof v \<noteq> Some TBoolean then Bool (truthy v)
      else if ty = TNumber \<and> typeof v \<noteq> Some TNumber then Num (js_Number env v)
      else if ty = TString \<and> typeof v \<noteq> Some TString then Str (js_String env v)
      else v)"

subsection \<open>Export\<close>

text \<open>
  \<open>browsers.map\<close> with \<open>delete browser.id\<close>, and the reading of a property of an item: a
  boolean, a number or a string has no property with an internal name. (\<open>null\<close> is no item
  of what \<open>loadConfigs\<close> returns.)
\<close>

fun delete_id :: "item \<Rightarrow> item" where
  "delete_id (Rec b) = Rec (delete_prop b ''id'')"
| "delete_id x = x"

fun item_prop :: "item \<Rightarrow> string \<Rightarrow> jsval" where
  "item_prop (Rec b) k = get_prop b k"
| "item_prop x k = Undefined"

text \<open>
  The text of the file: the header, then one block per item, one line per field in the
  order of the table, the first line of a block marked with a dash; the value is what
  \<open>jsYAML.dump\<close> renders, without its final line break.
\<close>

definition padEnd :: "nat \<Rightarrow> string \<Rightarrow> string" where
  "padEnd n s = s @ replicate (n - length s) CHR '' ''"

definition strip_newline :: "string \<Rightarrow> string" where
  "strip_newline s =
     (if s \<noteq> [] \<and> last s = CHR 0x0A
      then (if butlast s \<noteq> [] \<and> last (butlast s) = CHR 0x0D
            then butlast (butlast s) else butlast s)
      else s)"

fun yaml_lines :: "env \<Rightarrow> bool \<Rightarrow> field list \<Rightarrow> item \<Rightarrow> string" where
  "yaml_lines env first [] b = []"
| "yaml_lines env first (f # fs) b =
     (if first then ''-   '' else ''    '') @
     padEnd 30 (ename f @ '':'') @ '' '' @
     strip_newline (jsYAML_dump env (coerce env (etype f) (item_prop b (iname f)))) @
     [CHR 0x0A] @ yaml_lines env False fs b"

definition yaml_text :: "env \<Rightarrow> string \<Rightarrow> item list \<Rightarrow> string" where
  "yaml_text env header bs =
     header @ concat (map (\<lambda>b. yaml_lines env True fields b @ [CHR 0x0A]) bs)"

text \<open>
  \<open>exportConfig\<close> and \<open>autosaveConfig\<close> differ in the header only. Either throws what
  \<open>loadConfigs\<close> throws, throws on a string (which has no method \<open>map\<close>), and is rejected
  when the write is.
\<close>

definition write_yaml :: "env \<Rightarrow> string \<Rightarrow> string \<Rightarrow> world \<Rightarrow> error option \<times> world" where
  "write_yaml env header file w =
     (case loadConfigs w of
        (Inl e, w1) \<Rightarrow> (Some e, w1)
      | (Inr (Chars s), w1) \<Rightarrow> (Some TypeError, w1)
      | (Inr (Items xs), w1) \<Rightarrow>
          let text = yaml_text env header (map delete_id xs);
              w2 = emit (WriteFile file text) w1
          in if fs_writeFile env file text then (None, w2) else (Some IOError, w2))"

definition exportConfig :: "env \<Rightarrow> string \<Rightarrow> world \<Rightarrow> error option \<times> world" where
  "exportConfig env file w = write_yaml env (export_header env) file w"

definition autosaveConfig :: "env \<Rightarrow> string \<Rightarrow> world \<Rightarrow> error option \<times> world" where
  "autosaveConfig env file w = write_yaml env (autosave_header env) file w"

text \<open>\<open>performAutosave\<close> catches what \<open>autosaveConfig\<close> throws.\<close>

definition performAutosave :: "env \<Rightarrow> world \<Rightarrow> world" where
  "performAutosave env w =
     (if autosaveFile w = [] then w
      else case autosaveConfig env (autosaveFile w) w of
             (Some e, w1) \<Rightarrow> w1
           | (None, w1) \<Rightarrow>
               if \<not> control_destroyed w1 then emit (Send ''autosave-done'') w1 else w1)"

subsection \<open>Import\<close>

text \<open>
  \<open>importConfig\<close> on the text read from the file. When the parser throws, the function
  returns \<open>false\<close>. A document that is \<open>null\<close> counts as the empty array. The loop \<open>for \<dots> of\<close>
  throws on a document that cannot be iterated (\<open>undefined\<close>, a boolean, a number, a
  mapping) and runs once for every character of a string. In the loop, reading \<open>id\<close> of
  \<open>null\<close> throws; a record without \<open>id\<close> gets a new one; every external name that is present
  is replaced by its internal name with the coerced value; the legacy names are deleted;
  the record is sanitized. On a boolean, a number or a string (a character included) an
  id is made, and the assignments are without effect. Only after the loop the document is
  saved, and the function ends without a value (\<open>undefined\<close>).
\<close>

datatype import_result = ReturnedFalse | ReturnedUndefined | Threw error

definition legacyFields :: "string list" where
  "legacyFields =
     [''Output1Enabled'', ''Output1VideoPositionX'', ''Output1VideoPositionY'',
      ''Output1VideoDisplay'', ''Output1VideoPinTop'', ''Output1AudioDevice'',
      ''D'', ''x'', ''y'', ''d'', ''p'', ''A'']"

fun import_fields :: "env \<Rightarrow> field list \<Rightarrow> object \<Rightarrow> object" where
  "import_fields env [] b = b"
| "import_fields env (f # fs) b =
     (if get_prop b (ename f) = Undefined then import_fields env fs b
      else import_fields env fs
             (set_prop (delete_prop b (ename f)) (iname f)
                (coerce env (itype f) (get_prop b (ename f)))))"

definition import_browser :: "env \<Rightarrow> object \<Rightarrow> object" where
  "import_browser env b =
     fst (sanitizeConfig (foldl delete_prop (import_fields env fields b) legacyFields))"

fun import_items :: "env \<Rightarrow> item list \<Rightarrow> nat \<Rightarrow> (error + item list) \<times> nat" where
  "import_items env [] n = (Inr [], n)"
| "import_items env (Rec b # xs) n =
     (if get_prop b ''id'' = Undefined
      then (case import_items env xs (n + 1) of
              (Inl e, n') \<Rightarrow> (Inl e, n')
            | (Inr rest, n') \<Rightarrow>
                (Inr (Rec (import_browser env (set_prop b ''id'' (Str (new_UUID env n)))) # rest), n'))
      else (case import_items env xs n of
              (Inl e, n') \<Rightarrow> (Inl e, n')
            | (Inr rest, n') \<Rightarrow> (Inr (Rec (import_browser env b) # rest), n')))"
| "import_items env (NullItem # xs) n = (Inl TypeError, n)"
| "import_items env (Prim p # xs) n =
     (case import_items env xs (n + 1) of
        (Inl e, n') \<Rightarrow> (Inl e, n')
      | (Inr rest, n') \<Rightarrow> (Inr (Prim p # rest), n'))"

definition import_save :: "env \<Rightarrow> item list \<Rightarrow> world \<Rightarrow> import_result \<times> world" where
  "import_save env xs w =
     (case import_items env xs (uuid_count w) of
        (Inl e, n) \<Rightarrow> (Threw e, w\<lparr>uuid_count := n\<rparr>)
      | (Inr xs', n) \<Rightarrow> (ReturnedUndefined, saveConfigs (Items xs') (w\<lparr>uuid_count := n\<rparr>)))"

definition importConfig :: "env \<Rightarrow> string \<Rightarrow> world \<Rightarrow> import_result \<times> world" where
  "importConfig env text w =
     (case jsYAML_load env text of
        YamlException \<Rightarrow> (ReturnedFalse, w)
      | YamlUndefined \<Rightarrow> (Threw TypeError, w)
      | YamlNull \<Rightarrow> import_save env [] w
      | YamlBool b \<Rightarrow> (Threw TypeError, w)
      | YamlNum n \<Rightarrow> (Threw TypeError, w)
      | YamlStr s \<Rightarrow>
          (ReturnedUndefined,
           saveConfigs (Chars s) (w\<lparr>uuid_count := uuid_count w + length s\<rparr>))
      | YamlMap m \<Rightarrow> (Threw TypeError, w)
      | YamlSeq xs \<Rightarrow> import_save env xs w)"

section \<open>Web dashboard API\<close>

text \<open>
  The handlers for creating, patching and deleting an instance. Each returns the HTTP
  status and the state in which it ends; a handler is taken to run alone, from the request
  to the response. An error thrown inside a handler reaches the global error handler,
  which answers 500. The object spread \<open>{ ...a, ...b }\<close> copies the properties of \<open>a\<close> and
  then assigns those of \<open>b\<close>. \<open>!browsers[id]\<close> is true only for an id without entry that
  no object inherits.
\<close>

definition spread :: "object \<Rightarrow> object \<Rightarrow> object" where
  "spread a b = foldl (\<lambda>obj (k, v). set_prop obj k v) a b"

definition cfgArray :: "world \<Rightarrow> object list" where
  "cfgArray w = map (\<lambda>(bid, b). spread [(''id'', Str bid)] (cfg b)) (browsers w)"

definition saveBrowsersToStore :: "world \<Rightarrow> world" where
  "saveBrowsersToStore w =
     (let w1 = saveConfigs (Items (map Rec (cfgArray w))) w;
          w2 = (if \<not> control_destroyed w1 then emit (Send ''browsers-refresh'') w1 else w1)
      in emit ScheduleAutosave w2)"

definition and_then ::
  "error option \<times> world \<Rightarrow> (world \<Rightarrow> error option \<times> world) \<Rightarrow> error option \<times> world" where
  "and_then r f = (case r of (Some e, w) \<Rightarrow> (Some e, w) | (None, w) \<Rightarrow> f w)"

definition respond :: "nat \<Rightarrow> error option \<times> world \<Rightarrow> nat \<times> world" where
  "respond ok r =
     (case r of (Some e, w) \<Rightarrow> (500, w) | (None, w) \<Rightarrow> (ok, saveBrowsersToStore w))"

definition webui_post :: "env \<Rightarrow> object \<Rightarrow> world \<Rightarrow> nat \<times> world" where
  "webui_post env body w =
     (let bid = new_UUID env (uuid_count w);
          c = fst (sanitizeConfig (spread [(''id'', Str bid)] body))
      in respond 201 (controlBrowser env ''add'' bid c (w\<lparr>uuid_count := uuid_count w + 1\<rparr>)))"

definition webui_patch :: "env \<Rightarrow> string \<Rightarrow> object \<Rightarrow> world \<Rightarrow> nat \<times> world" where
  "webui_patch env bid body w =
     (case lookup w bid of
        Absent \<Rightarrow> (404, w)
      | Inherited \<Rightarrow> (500, w)
      | Own b \<Rightarrow>
          let c = fst (sanitizeConfig (spread (cfg b) body));
              (status, w1) =
                respond 200
                  (and_then
                     (and_then
                        (if running b then controlBrowser env ''stop'' bid [] w else (None, w))
                        (controlBrowser env ''mod'' bid c))
                     (\<lambda>w'. if running b then controlBrowser env ''start'' bid [] w'
                           else (None, w')))
          in if status = 200 \<and> running b
             then (status, emit (Syslog Info ''webui'' (AutoRestarted (get_prop c ''t'') bid)) w1)
             else (status, w1))"

definition webui_delete :: "env \<Rightarrow> string \<Rightarrow> world \<Rightarrow> nat \<times> world" where
  "webui_delete env bid w =
     (case lookup w bid of
        Absent \<Rightarrow> (404, w)
      | Inherited \<Rightarrow> (500, w)
      | Own b \<Rightarrow> respond 200 (controlBrowser env ''del'' bid [] w))"

section \<open>Persistence on mutation\<close>

text \<open>Two states agree on what is saved: the store and the version.\<close>

definition same_saved :: "world \<Rightarrow> world \<Rightarrow> bool" where
  "same_saved w w' \<longleftrightarrow> store w' = store w \<and> configVersion w' = configVersion w"

lemma store_emit [simp]: "store (emit e w) = store w"
  and configVersion_emit [simp]: "configVersion (emit e w) = configVersion w"
  by (simp_all add: emit_def)

lemma store_mutate [simp]: "store (mutate bid b w) = store w"
  and configVersion_mutate [simp]: "configVersion (mutate bid b w) = configVersion w"
  by (simp_all add: mutate_def)

lemma store_assign [simp]: "store (assign bid b w) = store w"
  and configVersion_assign [simp]: "configVersion (assign bid b w) = configVersion w"
  by (simp_all add: assign_def)

lemma store_remove [simp]: "store (remove bid w) = store w"
  and configVersion_remove [simp]: "configVersion (remove bid w) = configVersion w"
  by (simp_all add: remove_def)

lemma same_saved_refl [simp]: "same_saved w w"
  by (simp add: same_saved_def)

lemma same_saved_trans: "same_saved w w1 \<Longrightarrow> same_saved w1 w2 \<Longrightarrow> same_saved w w2"
  by (simp add: same_saved_def)

lemma control_start_saved: "same_saved w (snd (control_start env bid w))"
  by (simp add: control_start_def same_saved_def Let_def split: entry.splits)

lemma control_stop_saved: "same_saved w (snd (control_stop bid w))"
  by (simp add: control_stop_def same_saved_def split: entry.splits)

lemma control_reload_saved: "same_saved w (snd (control_reload bid w))"
  by (simp add: control_reload_def same_saved_def split: entry.splits)

lemma control_clear_saved: "same_saved w (snd (control_clear bid w))"
  by (simp add: control_clear_def same_saved_def split: entry.splits)

lemma control_add_saved: "same_saved w (snd (control_add bid c w))"
  by (simp add: control_add_def same_saved_def)

lemma control_mod_saved: "same_saved w (snd (control_mod bid c w))"
  by (simp add: control_mod_def same_saved_def split: entry.splits)

lemma control_del_saved: "same_saved w (snd (control_del bid w))"
proof (cases "lookup w bid")
  case (Own b)
  show ?thesis
  proof (cases "running b")
    case True
    from control_stop_saved [of w bid] Own True show ?thesis
      by (cases "control_stop bid w")
         (auto simp: control_del_def same_saved_def split: option.splits)
  next
    case False
    with Own show ?thesis by (simp add: control_del_def same_saved_def)
  qed
qed (simp_all add: control_del_def same_saved_def)

lemma begin_start_saved: "same_saved w (snd (begin_start bid w))"
  by (simp add: begin_start_def same_saved_def split: entry.splits)

lemma finish_start_saved: "same_saved w (finish_start env bid w)"
  by (simp add: finish_start_def same_saved_def split: entry.splits)

lemma begin_stop_saved: "same_saved w (snd (begin_stop bid w))"
  by (simp add: begin_stop_def same_saved_def split: entry.splits)

lemma finish_stop_saved: "same_saved w (finish_stop bid w)"
  by (simp add: finish_stop_def same_saved_def split: entry.splits)

lemma bulk_begin_saved:
  assumes "\<And>bid w. same_saved w (snd (begin bid w))"
  shows "same_saved w (snd (snd (bulk_begin elig begin ids w)))"
proof (induction ids arbitrary: w)
  case Nil
  then show ?case by simp
next
  case (Cons bid ids)
  show ?case
  proof (cases "lookup w bid")
    case (Own b)
    show ?thesis
    proof (cases "elig b")
      case True
      have "same_saved w (snd (snd (bulk_begin elig begin ids (snd (begin bid w)))))"
        using same_saved_trans [OF assms Cons.IH] .
      with Own True show ?thesis
        by (cases "begin bid w") (auto simp: split_beta split: option.splits)
    next
      case False
      with Own Cons.IH show ?thesis by simp
    qed
  qed simp_all
qed

lemma foldl_saved:
  assumes "\<And>bid w. same_saved w (finish bid w)"
  shows "same_saved w (foldl (\<lambda>w' bid. finish bid w') w ids)"
proof (induction ids arbitrary: w)
  case Nil
  then show ?case by simp
next
  case (Cons bid ids)
  from same_saved_trans [OF assms Cons.IH] show ?case by simp
qed

lemma bulk_saved:
  assumes "\<And>bid w. same_saved w (snd (begin bid w))"
    and "\<And>bid w. same_saved w (finish bid w)"
  shows "same_saved w (snd (bulk elig begin finish order ids w))"
  unfolding bulk_def
  using same_saved_trans [OF bulk_begin_saved [OF assms(1)] foldl_saved [of finish, OF assms(2)]]
  by (simp add: split_beta)

lemma prune_each_saved: "same_saved w (snd (prune_each ids w))"
proof (induction ids arbitrary: w)
  case Nil
  then show ?case by simp
next
  case (Cons bid ids)
  show ?case
  proof (cases "lookup w bid")
    case (Own b)
    have "same_saved w (remove bid (if running b then emit (Worker bid WStop) w else w))"
      by (simp add: same_saved_def)
    from same_saved_trans [OF this Cons.IH] Own show ?thesis by simp
  qed simp_all
qed

lemma controlBrowser_saved: "same_saved w (snd (controlBrowser env action bid c w))"
  unfolding controlBrowser_def control_start_all_def control_reload_all_def
    control_stop_all_def control_prune_def
  by (simp add: control_start_saved control_stop_saved control_reload_saved
      control_clear_saved control_add_saved control_mod_saved control_del_saved
      prune_each_saved bulk_saved begin_start_saved finish_start_saved begin_stop_saved
      finish_stop_saved)


text \<open>What the store holds after \<open>saveBrowsersToStore\<close>: the configuration of every instance.\<close>

definition registry_saved :: "world \<Rightarrow> bool" where
  "registry_saved w \<longleftrightarrow> store w = Some (Items (map Rec (cfgArray w)))"

lemma saveBrowsersToStore_saved:
  "configVersion (saveBrowsersToStore w) = configVersion w + 1"
  "registry_saved (saveBrowsersToStore w)"
  by (simp_all add: saveBrowsersToStore_def saveConfigs_def Let_def cfgArray_def emit_def
      registry_saved_def)

lemma registry_saved_emit [simp]: "registry_saved (emit e w) = registry_saved w"
  by (simp add: registry_saved_def cfgArray_def)

lemma respond_saved:
  assumes "same_saved w (snd r)"
  shows "fst (respond ok r) = ok \<and> ok \<noteq> 500 \<longrightarrow>
           configVersion (snd (respond ok r)) = configVersion w + 1 \<and>
           registry_saved (snd (respond ok r))"
    and "fst (respond ok r) = 500 \<and> ok \<noteq> 500 \<longrightarrow> same_saved w (snd (respond ok r))"
  using assms
  by (cases r; auto simp: respond_def same_saved_def saveBrowsersToStore_saved
      split: option.splits)+

lemma respond_status: "fst (respond ok r) = ok \<or> fst (respond ok r) = 500"
  by (cases r) (auto simp: respond_def split: option.splits)

lemma and_then_saved:
  assumes "same_saved w (snd r)" and "\<And>w'. same_saved w' (snd (f w'))"
  shows "same_saved w (snd (and_then r f))"
proof (cases r)
  case (Pair e w1)
  show ?thesis
  proof (cases e)
    case None
    with Pair assms(1) same_saved_trans [OF _ assms(2), of w w1] show ?thesis
      by (simp add: and_then_def)
  next
    case (Some a)
    with Pair assms(1) show ?thesis by (simp add: and_then_def)
  qed
qed

lemma control_del_own: "lookup w bid = Own b \<Longrightarrow> fst (control_del bid w) = None"
  by (cases "running b") (simp_all add: control_del_def control_stop_def)

lemma webui_post_created: "fst (webui_post env body w) = 201"
  by (simp add: webui_post_def Let_def respond_def controlBrowser_def control_add_def)

lemma webui_patch_stopped:
  "lookup w bid = Own b \<Longrightarrow> \<not> running b \<Longrightarrow> fst (webui_patch env bid body w) = 200"
  by (simp add: webui_patch_def Let_def respond_def and_then_def controlBrowser_def
      control_mod_def)

lemma webui_delete_own: "lookup w bid = Own b \<Longrightarrow> fst (webui_delete env bid w) = 200"
  using control_del_own [of w bid b]
  by (cases "control_del bid w") (simp add: webui_delete_def respond_def controlBrowser_def)

lemma webui_patch_cases:
  "(fst (webui_patch env bid body w) = 200 \<longrightarrow>
      configVersion (snd (webui_patch env bid body w)) = configVersion w + 1 \<and>
      registry_saved (snd (webui_patch env bid body w))) \<and>
   (fst (webui_patch env bid body w) \<noteq> 200 \<longrightarrow> same_saved w (snd (webui_patch env bid body w)))"
proof (cases "lookup w bid")
  case (Own b)
  let ?r = "and_then
             (and_then
                (if running b then controlBrowser env ''stop'' bid [] w else (None, w))
                (controlBrowser env ''mod'' bid (fst (sanitizeConfig (spread (cfg b) body)))))
             (\<lambda>w'. if running b then controlBrowser env ''start'' bid [] w' else (None, w'))"
  have s: "same_saved w (snd ?r)"
    by (intro and_then_saved) (simp_all add: controlBrowser_saved)
  note r = respond_saved [OF s, of 200]
  from respond_status [of 200 ?r] show ?thesis
  proof
    assume ok: "fst (respond 200 ?r) = 200"
    with r(1) have "configVersion (snd (respond 200 ?r)) = configVersion w + 1 \<and>
        registry_saved (snd (respond 200 ?r))" by simp
    with ok Own show ?thesis
      by (cases "running b"; simp add: webui_patch_def Let_def split_beta)
  next
    assume no: "fst (respond 200 ?r) = 500"
    with r(2) have "same_saved w (snd (respond 200 ?r))" by simp
    with no Own show ?thesis
      by (cases "running b"; simp add: webui_patch_def Let_def split_beta)
  qed
qed (simp_all add: webui_patch_def)

lemma webui_delete_cases:
  "(fst (webui_delete env bid w) = 200 \<longrightarrow>
      configVersion (snd (webui_delete env bid w)) = configVersion w + 1 \<and>
      registry_saved (snd (webui_delete env bid w))) \<and>
   (fst (webui_delete env bid w) \<noteq> 200 \<longrightarrow> same_saved w (snd (webui_delete env bid w)))"
proof (cases "lookup w bid")
  case (Own b)
  let ?r = "controlBrowser env ''del'' bid [] w"
  note r = respond_saved [OF controlBrowser_saved [of w env "''del''" bid "[]"], of 200]
  from respond_status [of 200 ?r] show ?thesis
  proof
    assume ok: "fst (respond 200 ?r) = 200"
    with r(1) Own show ?thesis by (simp add: webui_delete_def)
  next
    assume no: "fst (respond 200 ?r) = 500"
    with r(2) Own show ?thesis by (simp add: webui_delete_def)
  qed
qed (simp_all add: webui_delete_def)

text \<open>
  Claim C7, as the code has it. Creating an instance through the Web dashboard API, and
  every patch or deletion through it that is answered with 200, increments \<open>configVersion\<close>
  by one and writes the configurations of all instances of the registry to the store; a
  patch or deletion that is answered otherwise leaves the store and the version as they
  were. Every \<open>saveConfigs\<close> increments the version by one and stores what it is given.
  \<open>controlBrowser\<close> itself, which is all that the local control channel's \<open>control\<close> call
  runs, neither writes the store nor changes the version, whatever the action.
\<close>

theorem mutations_save_config:
  "fst (webui_post env body w) = 201 \<and>
   configVersion (snd (webui_post env body w)) = configVersion w + 1 \<and>
   registry_saved (snd (webui_post env body w)) \<and>
   (fst (webui_patch env bid body w) = 200 \<longrightarrow>
      configVersion (snd (webui_patch env bid body w)) = configVersion w + 1 \<and>
      registry_saved (snd (webui_patch env bid body w))) \<and>
   (fst (webui_patch env bid body w) \<noteq> 200 \<longrightarrow>
      same_saved w (snd (webui_patch env bid body w))) \<and>
   (fst (webui_delete env bid w) = 200 \<longrightarrow>
      configVersion (snd (webui_delete env bid w)) = configVersion w + 1 \<and>
      registry_saved (snd (webui_delete env bid w))) \<and>
   (fst (webui_delete env bid w) \<noteq> 200 \<longrightarrow>
      same_saved w (snd (webui_delete env bid w))) \<and>
   configVersion (saveConfigs d w) = configVersion w + 1 \<and>
   store (saveConfigs d w) = Some d \<and>
   same_saved w (snd (controlBrowser env action bid c w))"
proof -
  have post: "configVersion (snd (webui_post env body w)) = configVersion w + 1 \<and>
      registry_saved (snd (webui_post env body w))"
  proof -
    let ?w0 = "w\<lparr>uuid_count := uuid_count w + 1\<rparr>"
    let ?r = "controlBrowser env ''add'' (new_UUID env (uuid_count w))
        (fst (sanitizeConfig (spread [(''id'', Str (new_UUID env (uuid_count w)))] body))) ?w0"
    have "same_saved w ?w0" by (simp add: same_saved_def)
    then have s: "same_saved w (snd ?r)"
      using controlBrowser_saved same_saved_trans by blast
    from respond_saved(1) [OF s, of 201] webui_post_created [of env body w] show ?thesis
      by (simp add: webui_post_def Let_def)
  qed
  have save: "configVersion (saveConfigs d w) = configVersion w + 1 \<and>
      store (saveConfigs d w) = Some d"
    by (simp add: saveConfigs_def)
  from webui_post_created post webui_patch_cases webui_delete_cases save controlBrowser_saved
  show ?thesis by blast
qed

text \<open>
  The claim as stated has every successful \<open>add\<close> from any control surface save. An \<open>add\<close>
  through the local control channel succeeds and leaves the version and the store as they
  were: the local user interface saves with a call of its own (\<open>browsers-save\<close>).
\<close>

theorem local_add_no_save_counterexample:
  "fst (controlBrowser env0 ''add'' ''A1'' cfg_cam1 world0) = None \<and>
   lookup (snd (controlBrowser env0 ''add'' ''A1'' cfg_cam1 world0)) ''A1'' =
     Own \<lparr>cfg = cfg_cam1, running = False\<rparr> \<and>
   configVersion (snd (controlBrowser env0 ''add'' ''A1'' cfg_cam1 world0)) = configVersion world0 \<and>
   store (snd (controlBrowser env0 ''add'' ''A1'' cfg_cam1 world0)) = None"
  by (simp add: control_defs world0_def)

text \<open>
  A patch of a running instance stops it, applies the new configuration and starts it
  again. When the new configuration is not valid, the start throws after the \<open>mod\<close> has
  been applied: the request is answered with 500 and nothing is saved, although the
  registry holds the new configuration.
\<close>

lemma patch_restart_fails_unsaved:
  "fst (webui_patch env0 ''A1'' [(''t'', Str [])] world_started) = 500 \<and>
   (\<exists>b. lookup (snd (webui_patch env0 ''A1'' [(''t'', Str [])] world_started)) ''A1'' = Own b \<and>
        get_prop (cfg b) ''t'' = Str [] \<and> \<not> running b) \<and>
   store (snd (webui_patch env0 ''A1'' [(''t'', Str [])] world_started)) = None \<and>
   configVersion (snd (webui_patch env0 ''A1'' [(''t'', Str [])] world_started)) = 0"
proof -
  let ?c = "fst (sanitizeConfig (spread (cfg_cam1) [(''t'', Str [])]))"
  have l: "lookup world_started ''A1'' = Own \<lparr>cfg = cfg_cam1, running = True\<rparr>"
    by (simp add: lookup_def world_started_eq)
  have t: "get_prop ?c ''t'' = Str []"
    by (simp add: sanitizeConfig_get kept_def schema_keys_def fields_def migrate_video_get
        spread_def cfg_cam1_def get_prop_set_prop)
  then have nv: "\<not> valid \<lparr>cfg = ?c, running = False\<rparr>"
    by (simp add: valid_def)
  have v0: "store world_started = None" "configVersion world_started = 0"
    by (simp_all add: world_started_eq world0_def)
  have r0: "running \<lparr>cfg = cfg_cam1, running = True\<rparr>" by simp
  note cs = control_stop_running [OF l r0]
  define w1 where "w1 = snd (control_stop ''A1'' world_started)"
  have s: "control_stop ''A1'' world_started = (None, w1)"
    and l1: "lookup w1 ''A1'' = Own \<lparr>cfg = cfg_cam1, running = False\<rparr>"
    and v1: "store w1 = None" "configVersion w1 = 0"
    unfolding w1_def by (simp_all add: cs lookup_mutate v0)
  define w2 where "w2 = snd (control_mod ''A1'' ?c w1)"
  have m: "control_mod ''A1'' ?c w1 = (None, w2)"
    and l2: "lookup w2 ''A1'' = Own \<lparr>cfg = ?c, running = False\<rparr>"
    and v2: "store w2 = None" "configVersion w2 = 0"
    unfolding w2_def using l1 v1 by (simp_all add: control_mod_def lookup_mutate reconfigure_def)
  have st: "control_start env0 ''A1'' w2 = (Some InvalidConfig, w2)"
    using l2 nv by (simp add: control_start_def)
  have "webui_patch env0 ''A1'' [(''t'', Str [])] world_started = (500, w2)"
    using l s m st
    by (simp add: webui_patch_def Let_def respond_def and_then_def controlBrowser_def)
  with l2 t v2 show ?thesis by simp
qed

theorem mutations_save_config_witness:
  "fst (webui_patch env0 ''A1'' [(''t'', Str ''Cam2'')] world_added) = 200 \<and>
   configVersion (snd (webui_patch env0 ''A1'' [(''t'', Str ''Cam2'')] world_added)) = 1 \<and>
   registry_saved (snd (webui_patch env0 ''A1'' [(''t'', Str ''Cam2'')] world_added)) \<and>
   fst (webui_patch env0 ''B2'' [] world_added) \<noteq> 200 \<and>
   same_saved world_added (snd (webui_patch env0 ''B2'' [] world_added)) \<and>
   fst (webui_delete env0 ''A1'' world_added) = 200 \<and>
   configVersion (snd (webui_delete env0 ''A1'' world_added)) = 1 \<and>
   fst (webui_delete env0 ''B2'' world_added) \<noteq> 200 \<and>
   same_saved world_added (snd (webui_delete env0 ''B2'' world_added))"
proof -
  have l: "lookup world_added ''A1'' = Own \<lparr>cfg = cfg_cam1, running = False\<rparr>"
    by (simp add: lookup_def world_added_eq)
  have a: "lookup world_added ''B2'' = Absent"
    by (simp add: lookup_def world_added_eq Object_prototype_names_def)
  have p: "fst (webui_patch env0 ''A1'' [(''t'', Str ''Cam2'')] world_added) = 200"
    using webui_patch_stopped [OF l] by simp
  have d: "fst (webui_delete env0 ''A1'' world_added) = 200"
    using webui_delete_own [OF l] by simp
  have np: "fst (webui_patch env0 ''B2'' [] world_added) \<noteq> 200"
    and nd: "fst (webui_delete env0 ''B2'' world_added) \<noteq> 200"
    using a by (simp_all add: webui_patch_def webui_delete_def)
  have v: "configVersion world_added = 0"
    by (simp add: world_added_eq world0_def)
  from p d np nd v
    mutations_save_config [of env0 "[(''t'', Str ''Cam2'')]" world_added "''A1''"]
    mutations_save_config [of env0 "[]" world_added "''B2''"]
  show ?thesis by simp
qed

section \<open>Import failure\<close>

lemma import_items_length:
  "fst (import_items env xs n) = Inr ys \<Longrightarrow> length ys = length xs"
proof (induction env xs n arbitrary: ys rule: import_items.induct)
  case (1 env n)
  then show ?case by simp
next
  case (2 env b xs n)
  show ?case
  proof (cases "get_prop b ''id'' = Undefined")
    case True
    with 2(1) [OF True] 2(3) show ?thesis
      by (cases "import_items env xs (n + 1)") (auto split: sum.splits)
  next
    case False
    with 2(2) [OF False] 2(3) show ?thesis
      by (cases "import_items env xs n") (auto split: sum.splits)
  qed
next
  case (3 env xs n)
  then show ?case by simp
next
  case (4 env p xs n)
  then show ?case
    by (cases "import_items env xs (n + 1)") (auto split: sum.splits)
qed

text \<open>
  Claim C5. When the parser throws, \<open>importConfig\<close> returns \<open>false\<close> and the whole state
  (store, version, registry, trace) is as before. It returns \<open>false\<close> in no other case. When
  the text parses to a sequence, either the loop throws, and then nothing is saved (only
  ids have been used up), or the store holds the complete list, one item for each of the
  sequence: the save is the last step, after the loop over all items.
\<close>

theorem import_unparsable_untouched:
  "(jsYAML_load env text = YamlException \<longrightarrow>
      importConfig env text w = (ReturnedFalse, w)) \<and>
   (fst (importConfig env text w) = ReturnedFalse \<longleftrightarrow> jsYAML_load env text = YamlException) \<and>
   (\<forall>xs. jsYAML_load env text = YamlSeq xs \<longrightarrow>
      (case import_items env xs (uuid_count w) of
         (Inl e, n) \<Rightarrow> importConfig env text w = (Threw e, w\<lparr>uuid_count := n\<rparr>)
       | (Inr ys, n) \<Rightarrow>
           length ys = length xs \<and>
           store (snd (importConfig env text w)) = Some (Items ys)))"
proof (intro conjI allI impI)
  show "importConfig env text w = (ReturnedFalse, w)" if "jsYAML_load env text = YamlException"
    using that by (simp add: importConfig_def)
  show "fst (importConfig env text w) = ReturnedFalse \<longleftrightarrow> jsYAML_load env text = YamlException"
    by (cases "jsYAML_load env text")
       (simp_all add: importConfig_def import_save_def saveConfigs_def split_beta
          split: sum.splits)
  show "case import_items env xs (uuid_count w) of
         (Inl e, n) \<Rightarrow> importConfig env text w = (Threw e, w\<lparr>uuid_count := n\<rparr>)
       | (Inr ys, n) \<Rightarrow>
           length ys = length xs \<and>
           store (snd (importConfig env text w)) = Some (Items ys)"
    if "jsYAML_load env text = YamlSeq xs" for xs
    using that import_items_length [of env xs "uuid_count w"]
    by (cases "import_items env xs (uuid_count w)")
       (auto simp: importConfig_def import_save_def saveConfigs_def split: sum.splits)
qed

theorem import_unparsable_untouched_witness:
  "jsYAML_load env0 ''- {'' = YamlException \<and>
   importConfig env0 ''- {'' world_added = (ReturnedFalse, world_added)"
proof -
  have "jsYAML_load env0 ''- {'' = YamlException" by (simp add: env0_def)
  with import_unparsable_untouched [of env0 "''- {''" world_added] show ?thesis by blast
qed

text \<open>
  A text without document parses (to \<open>undefined\<close>), and the loop throws on it: nothing is
  saved, and \<open>false\<close> is not returned.
\<close>

lemma import_empty_text:
  "importConfig env0 [] world_added = (Threw TypeError, world_added)"
  by (simp add: importConfig_def env0_def)

section \<open>Telemetry\<close>

text \<open>
  The callback of \<open>usages.record\<close> in the usage timer. \<open>stat.avg\<close> is the moving average the
  external \<open>WeightedAverage\<close> hands over; it is modelled as a real number (a finite double).
  \<open>cpuHighCount\<close> is a JavaScript number that is only incremented and reset, hence a natural
  number here. \<open>Math.round\<close> rounds half up.
\<close>

definition Math_round :: "real \<Rightarrow> int" where
  "Math_round x = \<lfloor>x + 1 / 2\<rfloor>"

definition usage_callback :: "real \<Rightarrow> telemetry \<Rightarrow> telemetry" where
  "usage_callback avg s =
     (let s1 = s\<lparr>emitted := emitted s @ [SendUsage avg]\<rparr> in
      if 80 \<le> avg then
        (let s2 = s1\<lparr>cpuHighCount := cpuHighCount s1 + 1\<rparr> in
         if cpuHighCount s2 = 3
         then s2\<lparr>emitted := emitted s2 @ [Syslog Warn ''system'' (HighCPU (Math_round avg))]\<rparr>
         else s2)
      else s1\<lparr>cpuHighCount := 0\<rparr>)"

text \<open>The timer fires once per sample: the callback runs on each average in turn.\<close>

fun record_all :: "real list \<Rightarrow> telemetry \<Rightarrow> telemetry" where
  "record_all [] s = s"
| "record_all (avg # avgs) s = record_all avgs (usage_callback avg s)"

fun is_alert :: "event \<Rightarrow> bool" where
  "is_alert (Syslog Warn tag (HighCPU n)) = True"
| "is_alert e = False"

definition alert_count :: "telemetry \<Rightarrow> nat" where
  "alert_count s = length (filter is_alert (emitted s))"

lemma record_all_append:
  "record_all (xs @ ys) s = record_all ys (record_all xs s)"
  by (induction xs arbitrary: s) simp_all

lemma usage_callback_high:
  assumes "80 \<le> avg"
  shows "cpuHighCount (usage_callback avg s) = cpuHighCount s + 1"
    and "alert_count (usage_callback avg s) =
           alert_count s + (if cpuHighCount s = 2 then 1 else 0)"
  using assms by (simp_all add: usage_callback_def alert_count_def Let_def)

lemma usage_callback_low:
  assumes "avg < 80"
  shows "cpuHighCount (usage_callback avg s) = 0"
    and "alert_count (usage_callback avg s) = alert_count s"
  using assms by (simp_all add: usage_callback_def alert_count_def Let_def)

lemma record_all_high_run:
  assumes "\<forall>a \<in> set his. 80 \<le> a"
  shows "cpuHighCount (record_all his s) = cpuHighCount s + length his \<and>
         alert_count (record_all his s) =
           alert_count s + (if cpuHighCount s < 3 \<and> 3 \<le> cpuHighCount s + length his then 1 else 0)"
  using assms
proof (induction his arbitrary: s)
  case Nil
  then show ?case by simp
next
  case (Cons a his)
  have hi: "80 \<le> a" and rest: "\<forall>a \<in> set his. 80 \<le> a"
    using Cons.prems by simp_all
  note step = usage_callback_high [OF hi, of s]
  from Cons.IH [OF rest, of "usage_callback a s"] show ?case
    by (simp add: step)
qed

text \<open>
  Claim C9. Starting from a counter of zero, a run of consecutive averages at or above the
  threshold of 80 emits exactly one alert when the run has at least three samples (and none
  when it is shorter), however long the run continues; a sample below the threshold after
  the run resets the counter to zero and emits nothing, so a run cut short before its third
  sample fires no alert.
\<close>

theorem cpu_alert_edge_triggered:
  assumes "cpuHighCount s = 0" and "\<forall>a \<in> set his. 80 \<le> a" and "lo < 80"
  shows "alert_count (record_all his s) = alert_count s + (if 3 \<le> length his then 1 else 0) \<and>
         cpuHighCount (record_all (his @ [lo]) s) = 0 \<and>
         alert_count (record_all (his @ [lo]) s) = alert_count (record_all his s)"
proof -
  from record_all_high_run [OF assms(2), of s] assms(1)
  have "alert_count (record_all his s) = alert_count s + (if 3 \<le> length his then 1 else 0)"
    by simp
  moreover have "cpuHighCount (record_all (his @ [lo]) s) = 0"
    by (simp add: record_all_append usage_callback_low [OF assms(3)])
  moreover have "alert_count (record_all (his @ [lo]) s) = alert_count (record_all his s)"
    by (simp add: record_all_append usage_callback_low [OF assms(3)])
  ultimately show ?thesis by simp
qed

theorem cpu_alert_edge_triggered_witness:
  "alert_count (record_all [85, 90, 81, 99, 100] \<lparr>cpuHighCount = 0, emitted = []\<rparr>) = 1 \<and>
   alert_count (record_all [85, 90] \<lparr>cpuHighCount = 0, emitted = []\<rparr>) = 0 \<and>
   cpuHighCount (record_all ([85, 90] @ [79]) \<lparr>cpuHighCount = 0, emitted = []\<rparr>) = 0 \<and>
   alert_count (record_all ([85, 90] @ [79]) \<lparr>cpuHighCount = 0, emitted = []\<rparr>) = 0"
  using cpu_alert_edge_triggered [of "\<lparr>cpuHighCount = 0, emitted = []\<rparr>" "[85, 90, 81, 99, 100]" 79]
    cpu_alert_edge_triggered [of "\<lparr>cpuHighCount = 0, emitted = []\<rparr>" "[85, 90]" 79]
  by (simp add: alert_count_def)

section \<open>Media files\<close>

text \<open>
  The two routes of the Web dashboard that take a file name from the request path. The
  parameter arrives decoded, so it may hold any character, slashes included. The functions
  of Node's \<open>path\<close> module are modelled in their POSIX flavour. \<open>path.basename\<close> drops the
  trailing slashes and returns what follows the last remaining slash. A directory is a
  list of segments from the root; \<open>path.join(dir, name)\<close>, for a normalized absolute \<open>dir\<close>
  and a \<open>name\<close> without slash, normalizes \<open>dir/name\<close>: an empty name or \<open>.\<close> gives the
  directory itself, \<open>..\<close> its parent, anything else the entry of that name in the directory.
\<close>

definition path_basename :: "string \<Rightarrow> string" where
  "path_basename p =
     rev (takeWhile (\<lambda>c. c \<noteq> CHR ''/'') (dropWhile (\<lambda>c. c = CHR ''/'') (rev p)))"

type_synonym path = "string list"

definition path_join :: "path \<Rightarrow> string \<Rightarrow> path" where
  "path_join dir name =
     (if name = [] \<or> name = ''.'' then dir
      else if name = ''..'' then butlast dir
      else dir @ [name])"

text \<open>
  The file system maps paths to regular files (with their content) and directories.
  \<open>readFile\<close> and \<open>unlink\<close> succeed on a regular file only: on a directory and on a path
  that does not exist they reject, and the handlers answer 404. In a well-formed file
  system whatever exists lies in a directory.
\<close>

datatype node = File string | Dir

type_synonym filesystem = "(path \<times> node) list"

definition wf_fs :: "filesystem \<Rightarrow> bool" where
  "wf_fs fs \<longleftrightarrow> list_all (\<lambda>(p, n). p = [] \<or> map_of fs (butlast p) = Some Dir) fs"

definition readFile :: "filesystem \<Rightarrow> path \<Rightarrow> string option" where
  "readFile fs p = (case map_of fs p of Some (File content) \<Rightarrow> Some content | _ \<Rightarrow> None)"

definition unlink :: "filesystem \<Rightarrow> path \<Rightarrow> filesystem option" where
  "unlink fs p = (case map_of fs p of Some (File content) \<Rightarrow> Some (AList.delete p fs) | _ \<Rightarrow> None)"

definition media_get :: "path \<Rightarrow> string \<Rightarrow> filesystem \<Rightarrow> nat \<times> string option" where
  "media_get mediaDir filename fs =
     (let safeName = path_basename filename;
          filePath = path_join mediaDir safeName
      in case readFile fs filePath of
           Some content \<Rightarrow> (200, Some content)
         | None \<Rightarrow> (404, None))"

definition media_delete :: "path \<Rightarrow> string \<Rightarrow> filesystem \<Rightarrow> nat \<times> filesystem" where
  "media_delete mediaDir filename fs =
     (let safeName = path_basename filename;
          filePath = path_join mediaDir safeName
      in case unlink fs filePath of
           Some fs' \<Rightarrow> (200, fs')
         | None \<Rightarrow> (404, fs))"

text \<open>A name that denotes an entry of the directory it is joined to.\<close>

definition entry_name :: "string \<Rightarrow> bool" where
  "entry_name n \<longleftrightarrow> n \<noteq> [] \<and> n \<noteq> ''.'' \<and> n \<noteq> ''..'' \<and> CHR ''/'' \<notin> set n"

definition fs_example :: filesystem where
  "fs_example =
     [([], Dir), ([''etc''], Dir), ([''etc'', ''passwd''], File ''root''),
      ([''data''], Dir), ([''data'', ''secret.yaml''], File ''key''),
      ([''data'', ''Media''], Dir), ([''data'', ''Media'', ''logo.png''], File ''PNG'')]"

subsection \<open>Confinement to the media directory\<close>

lemma path_basename_no_slash: "CHR ''/'' \<notin> set (path_basename p)"
  by (auto simp: path_basename_def dest: set_takeWhileD)

lemma wf_fs_parent:
  assumes "wf_fs fs" and "map_of fs p = Some n"
  shows "map_of fs (butlast p) = Some Dir \<or> p = []"
proof -
  have "(p, n) \<in> set fs" using assms(2) by (rule map_of_SomeD)
  with assms(1) show ?thesis by (auto simp: wf_fs_def list_all_iff)
qed

text \<open>Where the joined path points: the directory, its parent, or an entry of the directory.\<close>

lemma path_join_cases:
  "path_join dir n = dir \<or> path_join dir n = butlast dir \<or>
   path_join dir n = dir @ [n] \<and> n \<noteq> [] \<and> n \<noteq> ''.'' \<and> n \<noteq> ''..''"
  by (simp add: path_join_def)

lemma file_at_joined:
  assumes wf: "wf_fs fs" and dir: "map_of fs mediaDir = Some Dir"
    and rd: "map_of fs (path_join mediaDir (path_basename filename)) = Some (File content)"
  shows "path_join mediaDir (path_basename filename) = mediaDir @ [path_basename filename] \<and>
         entry_name (path_basename filename)"
proof -
  let ?n = "path_basename filename"
  have parent: "map_of fs (butlast mediaDir) = Some Dir"
    using wf_fs_parent [OF wf dir] dir by auto
  from path_join_cases [of mediaDir ?n]
  consider (self) "path_join mediaDir ?n = mediaDir"
    | (parent) "path_join mediaDir ?n = butlast mediaDir"
    | (entry) "path_join mediaDir ?n = mediaDir @ [?n]" "?n \<noteq> []" "?n \<noteq> ''.''" "?n \<noteq> ''..''"
    by blast
  then show ?thesis
  proof cases
    case self
    with rd dir show ?thesis by simp
  next
    case parent
    with rd \<open>map_of fs (butlast mediaDir) = Some Dir\<close> show ?thesis by simp
  next
    case entry
    then show ?thesis by (simp add: entry_name_def path_basename_no_slash)
  qed
qed

text \<open>
  Claim C10. In a well-formed file system in which the media directory exists, whatever
  the parameter: the path that the two handlers read or unlink is the join of the media
  directory with the basename of the parameter; a file is served only when the basename is
  the name of an entry and that entry of the media directory is a regular file, whose
  content is what is sent; a deletion succeeds only on such an entry and removes nothing
  but it; in every other case the answer is 404 and the file system is as before.
\<close>

theorem media_confined:
  assumes "wf_fs fs" and "map_of fs mediaDir = Some Dir"
  shows "(\<forall>content. media_get mediaDir filename fs = (200, Some content) \<longrightarrow>
            entry_name (path_basename filename) \<and>
            map_of fs (mediaDir @ [path_basename filename]) = Some (File content)) \<and>
         (fst (media_get mediaDir filename fs) \<noteq> 200 \<longrightarrow>
            media_get mediaDir filename fs = (404, None)) \<and>
         (fst (media_delete mediaDir filename fs) = 200 \<longrightarrow>
            entry_name (path_basename filename) \<and>
            (\<exists>content. map_of fs (mediaDir @ [path_basename filename]) = Some (File content)) \<and>
            snd (media_delete mediaDir filename fs) =
              AList.delete (mediaDir @ [path_basename filename]) fs) \<and>
         (fst (media_delete mediaDir filename fs) \<noteq> 200 \<longrightarrow>
            media_delete mediaDir filename fs = (404, fs))"
proof (intro conjI allI impI)
  fix content
  assume "media_get mediaDir filename fs = (200, Some content)"
  then have f: "map_of fs (path_join mediaDir (path_basename filename)) = Some (File content)"
    by (auto simp: media_get_def readFile_def Let_def split: option.splits node.splits)
  from file_at_joined [OF assms f]
  show "entry_name (path_basename filename)"
    and "map_of fs (mediaDir @ [path_basename filename]) = Some (File content)"
    using f by simp_all
next
  assume "fst (media_get mediaDir filename fs) \<noteq> 200"
  then show "media_get mediaDir filename fs = (404, None)"
    by (auto simp: media_get_def Let_def split: option.splits)
next
  assume ok: "fst (media_delete mediaDir filename fs) = 200"
  then obtain content
    where f: "map_of fs (path_join mediaDir (path_basename filename)) = Some (File content)"
    by (auto simp: media_delete_def unlink_def Let_def split: option.splits node.splits)
  note j = file_at_joined [OF assms f]
  show "entry_name (path_basename filename)" using j by simp
  show "\<exists>content. map_of fs (mediaDir @ [path_basename filename]) = Some (File content)"
    using j f by auto
  show "snd (media_delete mediaDir filename fs) =
      AList.delete (mediaDir @ [path_basename filename]) fs"
    using j f by (simp add: media_delete_def unlink_def Let_def)
next
  assume "fst (media_delete mediaDir filename fs) \<noteq> 200"
  then show "media_delete mediaDir filename fs = (404, fs)"
    by (auto simp: media_delete_def Let_def split: option.splits)
qed

lemma wf_fs_example: "wf_fs fs_example"
  by (simp add: wf_fs_def fs_example_def)

theorem media_confined_witness:
  "wf_fs fs_example \<and> map_of fs_example [''data'', ''Media''] = Some Dir \<and>
   media_get [''data'', ''Media''] ''logo.png'' fs_example = (200, Some ''PNG'') \<and>
   map_of fs_example ([''data'', ''Media''] @ [path_basename ''logo.png'']) = Some (File ''PNG'') \<and>
   media_get [''data'', ''Media''] ''../../etc/passwd'' fs_example = (404, None) \<and>
   media_get [''data'', ''Media''] ''../secret.yaml'' fs_example = (404, None) \<and>
   media_delete [''data'', ''Media''] ''..'' fs_example = (404, fs_example)"
proof -
  have d: "map_of fs_example [''data'', ''Media''] = Some Dir"
    by (simp add: fs_example_def)
  have g: "media_get [''data'', ''Media''] ''logo.png'' fs_example = (200, Some ''PNG'')"
    by (simp add: media_get_def path_basename_def path_join_def readFile_def fs_example_def)
  have n1: "fst (media_get [''data'', ''Media''] ''../../etc/passwd'' fs_example) \<noteq> 200"
    by (simp add: media_get_def path_basename_def path_join_def readFile_def fs_example_def)
  have n2: "fst (media_get [''data'', ''Media''] ''../secret.yaml'' fs_example) \<noteq> 200"
    by (simp add: media_get_def path_basename_def path_join_def readFile_def fs_example_def)
  have n3: "fst (media_delete [''data'', ''Media''] ''..'' fs_example) \<noteq> 200"
    by (simp add: media_delete_def path_basename_def path_join_def unlink_def fs_example_def)
  from media_confined [OF wf_fs_example d, of "''logo.png''"]
    media_confined [OF wf_fs_example d, of "''../../etc/passwd''"]
    media_confined [OF wf_fs_example d, of "''../secret.yaml''"]
    media_confined [OF wf_fs_example d, of "''..''"]
    wf_fs_example d g n1 n2 n3
  show ?thesis by simp
qed

end
